theory Spec2Isabelle
  imports Complex_Main
begin

section \<open>STL metadata: facets, surfaces and the line parser\<close>

text \<open>
  A shallow embedding of \<^verbatim>\<open>stl_metadata.py\<close>. Python floats are idealised as
  \<^typ>\<open>real\<close>: rounding, infinities and NaN are outside the model. The builtin
  \<^verbatim>\<open>float\<close> is a parameter \<open>float\<close> of the parser (\<open>None\<close> is its
  \<^verbatim>\<open>ValueError\<close>), so every theorem holds for any conversion of words to numbers.
  Characters are code points below 256. An exception is the result \<open>Inl\<close> of the
  function that raises it; the \<^verbatim>\<open>OverflowError\<close> of \<^verbatim>\<open>**2\<close> on a coordinate
  difference whose square exceeds the doubles is an effect of the floats and outside
  the model too, so that the theorems speak of the runs that return. The rounding of
  the doubles is modelled apart, for the last two lines of \<^verbatim>\<open>find_area\<close> only.
  The formatting of the total area as text (\<^verbatim>\<open>Surface.get_area\<close>),
  \<^verbatim>\<open>__repr__\<close> and the printing of the main program are left out.
\<close>

subsection \<open>Errors\<close>

datatype error = IndexError | TypeError | ValueError

subsection \<open>Point and Facet\<close>

record Point =
  x :: real
  y :: real
  z :: real

text \<open>\<^verbatim>\<open>Point(*t)\<close>: the namedtuple constructor takes exactly three arguments.\<close>

fun Point_new :: "real list \<Rightarrow> error + Point" where
  "Point_new [a, b, c] = Inr \<lparr>x = a, y = b, z = c\<rparr>"
| "Point_new t = Inl TypeError"

text \<open>A Point is a tuple: as a dictionary key it is the tuple of its coordinates.\<close>

definition Point_tuple :: "Point \<Rightarrow> real list" where
  "Point_tuple p = [x p, y p, z p]"

record Facet =
  N :: "real list option"
  A :: Point
  B :: Point
  C :: Point
  area :: real

text \<open>\<^verbatim>\<open>_distance\<close>, the helper nested in \<^verbatim>\<open>find_area\<close>. The power
  \<^verbatim>\<open>**.5\<close> is the square root on the non-negative reals.\<close>

definition distance :: "Point \<Rightarrow> Point \<Rightarrow> real" where
  "distance p1 p2 = sqrt ((x p2 - x p1)\<^sup>2 + (y p2 - y p1)\<^sup>2 + (z p2 - z p1)\<^sup>2)"

text \<open>\<^verbatim>\<open>find_area\<close> reads \<^verbatim>\<open>self.A\<close>, \<^verbatim>\<open>self.B\<close>, \<^verbatim>\<open>self.C\<close>; the
  constructor calls it before \<^verbatim>\<open>self.area\<close> exists, so the three vertices are
  its arguments here. In exact arithmetic the number under the root is not negative
  (lemma \<open>heron_radicand_nonneg\<close> below); the program rounds it, and on a negative
  rounded value its power \<^verbatim>\<open>**.5\<close> returns a complex number, which this
  definition does not show.\<close>

definition find_area :: "Point \<Rightarrow> Point \<Rightarrow> Point \<Rightarrow> real" where
  "find_area a b c =
     (let ab = distance a b;
          bc = distance b c;
          ca = distance c a;
          s = 0.5 * (ab + bc + ca)
      in sqrt (s * (s - ab) * (s - bc) * (s - ca)))"

text \<open>\<^verbatim>\<open>v[i]\<close> on a Python list, for an index that is not negative.\<close>

definition index :: "'a list \<Rightarrow> nat \<Rightarrow> error + 'a" where
  "index xs i = (if i < length xs then Inr (xs ! i) else Inl IndexError)"

text \<open>\<^verbatim>\<open>Point(*v[i])\<close>: the index lookup, then the construction.\<close>

definition vertex_at :: "real list list \<Rightarrow> nat \<Rightarrow> error + Point" where
  "vertex_at v i = (case index v i of Inl e \<Rightarrow> Inl e | Inr t \<Rightarrow> Point_new t)"

text \<open>\<^verbatim>\<open>Facet.__init__\<close>: the vertices are built in the order A, B, C; the
  first failure is raised.\<close>

definition Facet_init :: "real list option \<Rightarrow> real list list \<Rightarrow> error + Facet" where
  "Facet_init n v =
     (case vertex_at v 0 of Inl e \<Rightarrow> Inl e | Inr a \<Rightarrow>
       (case vertex_at v 1 of Inl e \<Rightarrow> Inl e | Inr b \<Rightarrow>
         (case vertex_at v 2 of Inl e \<Rightarrow> Inl e | Inr c \<Rightarrow>
            Inr \<lparr>N = n, A = a, B = b, C = c, area = find_area a b c\<rparr>)))"

definition get_normal :: "Facet \<Rightarrow> real list option" where
  "get_normal f = N f"

definition get_vertices :: "Facet \<Rightarrow> Point \<times> Point \<times> Point" where
  "get_vertices f = (A f, B f, C f)"

definition Facet_get_area :: "Facet \<Rightarrow> real" where
  "Facet_get_area f = Facet.area f"

subsection \<open>Surface\<close>

record Surface =
  name :: "string list option"
  area :: real
  facets :: "Facet list"
  vertices :: "real list \<rightharpoonup> Facet list"
  min_x :: real
  max_x :: real
  min_y :: real
  max_y :: real
  min_z :: real
  max_z :: real

definition Surface_init :: Surface where
  "Surface_init =
     \<lparr>name = None, area = 0, facets = [], vertices = Map.empty,
      min_x = 0, max_x = 0, min_y = 0, max_y = 0, min_z = 0, max_z = 0\<rparr>"

text \<open>\<^verbatim>\<open>set_name\<close> receives the words after \<^verbatim>\<open>solid\<close>, a list.\<close>

definition set_name :: "Surface \<Rightarrow> string list \<Rightarrow> Surface" where
  "set_name s nm = s\<lparr>name := Some nm\<rparr>"

definition set_area :: "Surface \<Rightarrow> Facet \<Rightarrow> Surface" where
  "set_area s f = s\<lparr>area := Surface.area s + Facet_get_area f\<rparr>"

definition set_min_max :: "Surface \<Rightarrow> Facet \<Rightarrow> Surface" where
  "set_min_max s f =
     (let a = fst (get_vertices f) in
      s\<lparr>min_x := min (min_x s) (x a), max_x := max (max_x s) (x a),
        min_y := min (min_y s) (y a), max_y := max (max_y s) (y a),
        min_z := min (min_z s) (z a), max_z := max (max_z s) (z a)\<rparr>)"

text \<open>\<^verbatim>\<open>self.vertices[v].append(f)\<close> on a \<^verbatim>\<open>defaultdict(list)\<close>: a missing
  key starts from the empty list.\<close>

definition lookup_default :: "(real list \<rightharpoonup> Facet list) \<Rightarrow> real list \<Rightarrow> Facet list" where
  "lookup_default m v = (case m v of None \<Rightarrow> [] | Some fs \<Rightarrow> fs)"

definition append_facet :: "Facet \<Rightarrow> (real list \<rightharpoonup> Facet list) \<Rightarrow> real list \<Rightarrow> (real list \<rightharpoonup> Facet list)" where
  "append_facet f m v = m(v \<mapsto> lookup_default m v @ [f])"

definition add_facet :: "Surface \<Rightarrow> real list option \<Rightarrow> real list list \<Rightarrow> error + Surface" where
  "add_facet s n verts =
     (case Facet_init n verts of Inl e \<Rightarrow> Inl e | Inr f \<Rightarrow>
      let s1 = set_area s f;
          s2 = set_min_max s1 f;
          s3 = s2\<lparr>facets := facets s2 @ [f]\<rparr>
      in Inr (s3\<lparr>vertices := foldl (append_facet f) (vertices s3) verts\<rparr>))"

definition get_facets :: "Surface \<Rightarrow> Facet list" where
  "get_facets s = facets s"

text \<open>\<^verbatim>\<open>find_facets\<close> indexes the \<^verbatim>\<open>defaultdict\<close>: an unknown key yields the
  empty list and is stored under that key.\<close>

definition find_facets :: "Surface \<Rightarrow> real list \<Rightarrow> Facet list \<times> Surface" where
  "find_facets s vert =
     (case vertices s vert of
        None \<Rightarrow> ([], s\<lparr>vertices := (vertices s)(vert \<mapsto> [])\<rparr>)
      | Some fs \<Rightarrow> (fs, s))"

definition find_dims :: "Surface \<Rightarrow> real \<times> real \<times> real" where
  "find_dims s = (max_x s - min_x s, max_y s - min_y s, max_z s - min_z s)"

definition find_bounds :: "Surface \<Rightarrow> (real \<times> real \<times> real) list" where
  "find_bounds s =
     (case find_dims s of (X, Y, Z) \<Rightarrow>
        [(0, 0, 0), (0, 0, Z), (0, Y, 0), (0, Y, Z),
         (X, 0, 0), (X, 0, Z), (X, Y, 0), (X, Y, Z)])"

definition get_bounding_box_volume :: "Surface \<Rightarrow> real" where
  "get_bounding_box_volume s = (case find_dims s of (X, Y, Z) \<Rightarrow> X * Y * Z)"

subsection \<open>The parser\<close>

text \<open>The characters \<^verbatim>\<open>str.split()\<close> treats as white space, below code point 256.\<close>

definition isspace :: "char \<Rightarrow> bool" where
  "isspace ch = (of_char ch \<in> {9, 10, 11, 12, 13, 28, 29, 30, 31, 32, 133, 160 :: nat})"

text \<open>\<^verbatim>\<open>l.split()\<close>: the maximal runs of characters that are not white space.
  The first argument is the word being read.\<close>

fun split_from :: "string \<Rightarrow> string \<Rightarrow> string list" where
  "split_from w [] = (if w = [] then [] else [w])"
| "split_from w (ch # cs) =
     (if isspace ch then (if w = [] then split_from [] cs else w # split_from [] cs)
      else split_from (w @ [ch]) cs)"

definition split :: "string \<Rightarrow> string list" where
  "split l = split_from [] l"

definition parse_line :: "string \<Rightarrow> error + (string \<times> string list)" where
  "parse_line l =
     (let key_val = split l in
      case index key_val 0 of Inl e \<Rightarrow> Inl e | Inr k \<Rightarrow> Inr (k, drop 1 key_val))"

text \<open>\<^verbatim>\<open>tuple(map(float, ws))\<close>: the words are converted from left to right.\<close>

fun floats :: "(string \<Rightarrow> real option) \<Rightarrow> string list \<Rightarrow> error + real list" where
  "floats float [] = Inr []"
| "floats float (w # ws) =
     (case float w of None \<Rightarrow> Inl ValueError | Some r \<Rightarrow>
       (case floats float ws of Inl e \<Rightarrow> Inl e | Inr rs \<Rightarrow> Inr (r # rs)))"

text \<open>The state of the loop of \<^verbatim>\<open>load\<close>: the local variables \<^verbatim>\<open>normal\<close>
  and \<^verbatim>\<open>vertices\<close>, and the surface.\<close>

type_synonym loader = "real list option \<times> real list list \<times> Surface"

text \<open>One iteration of the loop, on one line of the file.\<close>

definition load_line :: "(string \<Rightarrow> real option) \<Rightarrow> loader \<Rightarrow> string \<Rightarrow> error + loader" where
  "load_line float st line =
     (case st of (normal, verts, s) \<Rightarrow>
       (case parse_line line of Inl e \<Rightarrow> Inl e | Inr (key, val) \<Rightarrow>
        if key = ''solid'' then Inr (normal, verts, set_name s val)
        else if key = ''facet'' then
          (case floats float (drop 1 val) of Inl e \<Rightarrow> Inl e
           | Inr n \<Rightarrow> Inr (Some n, verts, s))
        else if key = ''vertex'' then
          (case floats float val of Inl e \<Rightarrow> Inl e
           | Inr v \<Rightarrow> Inr (normal, verts @ [v], s))
        else if key = ''endfacet'' then
          (case add_facet s normal verts of Inl e \<Rightarrow> Inl e
           | Inr s' \<Rightarrow> Inr (None, [], s'))
        else Inr (normal, verts, s)))"

fun load_lines :: "(string \<Rightarrow> real option) \<Rightarrow> loader \<Rightarrow> string list \<Rightarrow> error + loader" where
  "load_lines float st [] = Inr st"
| "load_lines float st (line # rest) =
     (case load_line float st line of Inl e \<Rightarrow> Inl e
      | Inr st' \<Rightarrow> load_lines float st' rest)"

text \<open>\<^verbatim>\<open>load\<close>, on the lines of the opened file. An exception ends the loop;
  the surface as the exception left it is not part of the result.\<close>

definition load :: "(string \<Rightarrow> real option) \<Rightarrow> Surface \<Rightarrow> string list \<Rightarrow> error + Surface" where
  "load float s fp =
     (case load_lines float (None, [], s) fp of Inl e \<Rightarrow> Inl e
      | Inr (normal, verts, s') \<Rightarrow> Inr s')"

subsection \<open>The arithmetic of doubles\<close>

text \<open>A finite double is an integer times a power of two: \<open>Double m e\<close> stands for
  \<open>m * 2 ^ e\<close>. The results of \<^verbatim>\<open>+\<close>, \<^verbatim>\<open>-\<close> and \<^verbatim>\<open>*\<close> are the exact results
  rounded to 53 bits, to the nearest and to the even one on a tie. Infinities, NaN and
  the limits of the exponent are left out.\<close>

datatype double = Double int int

function bit_length :: "int \<Rightarrow> nat" where
  "bit_length m = (if m \<le> 0 then 0 else Suc (bit_length (m div 2)))"
  by pat_completeness auto
termination
  by (relation "measure nat") auto

text \<open>\<open>m / 2 ^ k\<close> for \<open>m\<close> not negative, rounded to the nearest integer, to the even
  one on a tie.\<close>

definition round_even :: "int \<Rightarrow> nat \<Rightarrow> int" where
  "round_even m k =
     (let q = m div 2 ^ k; r = m mod 2 ^ k in
      if 2 * r < 2 ^ k then q
      else if 2 ^ k < 2 * r then q + 1
      else if even q then q else q + 1)"

definition round53 :: "int \<Rightarrow> int \<Rightarrow> double" where
  "round53 m e =
     (let k = bit_length \<bar>m\<bar> - 53 in
      Double (sgn m * round_even \<bar>m\<bar> k) (e + int k))"

fun dadd :: "double \<Rightarrow> double \<Rightarrow> double" where
  "dadd (Double m1 e1) (Double m2 e2) =
     (let e = min e1 e2 in round53 (m1 * 2 ^ nat (e1 - e) + m2 * 2 ^ nat (e2 - e)) e)"

fun dsub :: "double \<Rightarrow> double \<Rightarrow> double" where
  "dsub (Double m1 e1) (Double m2 e2) =
     (let e = min e1 e2 in round53 (m1 * 2 ^ nat (e1 - e) - m2 * 2 ^ nat (e2 - e)) e)"

fun dmul :: "double \<Rightarrow> double \<Rightarrow> double" where
  "dmul (Double m1 e1) (Double m2 e2) = round53 (m1 * m2) (e1 + e2)"

text \<open>The last two lines of \<^verbatim>\<open>find_area\<close> on doubles, from the three distances:
  \<^verbatim>\<open>s = 0.5 * (ab + bc + ca)\<close> and the power \<^verbatim>\<open>.5\<close> of
  \<^verbatim>\<open>s * (s - ab) * (s - bc) * (s - ca)\<close>. The power of a negative double is a complex
  number, whose value is left out; the power of any other double is the parameter
  \<open>pow_half\<close>, since the C library computes it.\<close>

datatype pyvalue = PyFloat double | PyComplex

definition radicand_double :: "double \<Rightarrow> double \<Rightarrow> double \<Rightarrow> double" where
  "radicand_double ab bc ca =
     (let s = dmul (Double 1 (- 1)) (dadd (dadd ab bc) ca)
      in dmul (dmul (dmul s (dsub s ab)) (dsub s bc)) (dsub s ca))"

definition heron_double :: "(double \<Rightarrow> double) \<Rightarrow> double \<Rightarrow> double \<Rightarrow> double \<Rightarrow> pyvalue" where
  "heron_double pow_half ab bc ca =
     (case radicand_double ab bc ca of
        Double m e \<Rightarrow> if m < 0 then PyComplex else PyFloat (pow_half (Double m e)))"

subsection \<open>Notions of the specification\<close>

text \<open>The Euclidean distance of two vertices, and Heron's formula on three side
  lengths with the semi-perimeter \<open>s = (ab + bc + ca) / 2\<close>.\<close>

definition euclidean :: "Point \<Rightarrow> Point \<Rightarrow> real" where
  "euclidean p q = sqrt ((x p - x q)\<^sup>2 + (y p - y q)\<^sup>2 + (z p - z q)\<^sup>2)"

definition heron :: "real \<Rightarrow> real \<Rightarrow> real \<Rightarrow> real" where
  "heron ab bc ca = (let s = (ab + bc + ca) / 2 in sqrt (s * (s - ab) * (s - bc) * (s - ca)))"

text \<open>A line is blank when it holds nothing but white space.\<close>

definition blank :: "string \<Rightarrow> bool" where
  "blank l = list_all isspace l"

text \<open>The first word of a line is a given keyword.\<close>

definition has_key :: "string \<Rightarrow> string \<Rightarrow> bool" where
  "has_key k l = (case parse_line l of Inl e \<Rightarrow> False | Inr (key, val) \<Rightarrow> key = k)"

text \<open>The argument lists of the \<^verbatim>\<open>solid\<close> lines of an input, in input order.\<close>

definition solid_args :: "string list \<Rightarrow> string list list" where
  "solid_args fp = map (\<lambda>l. drop 1 (split l)) (filter (has_key ''solid'') fp)"

text \<open>The facet blocks of an input, in input order: one block for each
  \<^verbatim>\<open>endfacet\<close> line, made of the normal of the last \<^verbatim>\<open>facet\<close> line and of the
  \<^verbatim>\<open>vertex\<close> lines read since the previous \<^verbatim>\<open>endfacet\<close> line. The first
  argument is the block being read.\<close>

type_synonym block = "real list option \<times> real list list"

fun facet_blocks :: "(string \<Rightarrow> real option) \<Rightarrow> block \<Rightarrow> string list \<Rightarrow> block list" where
  "facet_blocks float (normal, verts) [] = []"
| "facet_blocks float (normal, verts) (line # rest) =
     (case parse_line line of Inl e \<Rightarrow> [] | Inr (key, val) \<Rightarrow>
        if key = ''facet'' then
          (case floats float (drop 1 val) of Inl e \<Rightarrow> []
           | Inr n \<Rightarrow> facet_blocks float (Some n, verts) rest)
        else if key = ''vertex'' then
          (case floats float val of Inl e \<Rightarrow> []
           | Inr v \<Rightarrow> facet_blocks float (normal, verts @ [v]) rest)
        else if key = ''endfacet'' then (normal, verts) # facet_blocks float (None, []) rest
        else facet_blocks float (normal, verts) rest)"

text \<open>The least and the greatest of 0 and the values of a measure over a list of
  facets; a surface is seeded when its six extents are these values of the coordinates
  of the first vertices of its facets.\<close>

definition least :: "(Facet \<Rightarrow> real) \<Rightarrow> Facet list \<Rightarrow> real" where
  "least g fs = Min (insert 0 (g ` set fs))"

definition greatest :: "(Facet \<Rightarrow> real) \<Rightarrow> Facet list \<Rightarrow> real" where
  "greatest g fs = Max (insert 0 (g ` set fs))"

definition seeded :: "Surface \<Rightarrow> bool" where
  "seeded s \<longleftrightarrow>
     min_x s = least (\<lambda>f. x (A f)) (facets s) \<and>
     max_x s = greatest (\<lambda>f. x (A f)) (facets s) \<and>
     min_y s = least (\<lambda>f. y (A f)) (facets s) \<and>
     max_y s = greatest (\<lambda>f. y (A f)) (facets s) \<and>
     min_z s = least (\<lambda>f. z (A f)) (facets s) \<and>
     max_z s = greatest (\<lambda>f. z (A f)) (facets s)"

text \<open>The lines of an input after its last \<^verbatim>\<open>endfacet\<close> line, all of them when it
  has none.\<close>

definition since_endfacet :: "string list \<Rightarrow> string list" where
  "since_endfacet fp = rev (takeWhile (\<lambda>l. \<not> has_key ''endfacet'' l) (rev fp))"

subsection \<open>A conversion of words to numbers for the examples\<close>

text \<open>Decimal integer literals with an optional minus sign, on which Python's
  \<^verbatim>\<open>float\<close> gives the same number; every other word is rejected here.\<close>

fun digits :: "nat \<Rightarrow> string \<Rightarrow> nat option" where
  "digits n [] = Some n"
| "digits n (ch # cs) =
     (let d = of_char ch :: nat in
      if 48 \<le> d \<and> d \<le> 57 then digits (10 * n + (d - 48)) cs else None)"

definition float_int :: "string \<Rightarrow> real option" where
  "float_int w =
     (case w of [] \<Rightarrow> None
      | ch # cs \<Rightarrow>
          if ch = CHR ''-'' then
            (if cs = [] then None else map_option (\<lambda>n. - real n) (digits 0 cs))
          else map_option real (digits 0 w))"

section \<open>Helper lemmas\<close>

text \<open>The equations that run the parser and the surface on a given input.\<close>

lemmas run_defs = split_def parse_line_def index_def load_line_def load_def isspace_def
  float_int_def add_facet_def Facet_init_def vertex_at_def set_area_def set_min_max_def
  set_name_def Surface_init_def get_vertices_def Facet_get_area_def append_facet_def
  lookup_default_def get_facets_def Let_def

lemmas parse_defs = facet_blocks.simps has_key_def parse_line_def split_def isspace_def index_def
  float_int_def Let_def

lemma distance_euclidean: "distance p q = euclidean p q"
  by (simp add: distance_def euclidean_def power2_commute)

lemma find_area_heron:
  "find_area a b c = heron (euclidean a b) (euclidean b c) (euclidean c a)"
  by (simp add: find_area_def heron_def distance_euclidean Let_def)

lemma Facet_init_Inr:
  assumes "Facet_init n v = Inr f"
  obtains a b c where "vertex_at v 0 = Inr a" and "vertex_at v 1 = Inr b"
    and "vertex_at v 2 = Inr c"
    and "f = \<lparr>N = n, A = a, B = b, C = c, area = find_area a b c\<rparr>"
  using assms by (auto simp: Facet_init_def split: sum.splits)

lemma Facet_init_area:
  "Facet_init n v = Inr f \<Longrightarrow> Facet.area f = find_area (A f) (B f) (C f)"
  by (erule Facet_init_Inr) simp

lemma add_facet_Inr:
  assumes "add_facet s n verts = Inr s'"
  obtains f where "Facet_init n verts = Inr f"
    and "s' = s\<lparr>area := Surface.area s + Facet.area f,
                 min_x := min (min_x s) (x (A f)), max_x := max (max_x s) (x (A f)),
                 min_y := min (min_y s) (y (A f)), max_y := max (max_y s) (y (A f)),
                 min_z := min (min_z s) (z (A f)), max_z := max (max_z s) (z (A f)),
                 facets := facets s @ [f],
                 vertices := foldl (append_facet f) (vertices s) verts\<rparr>"
  using assms
  by (auto simp: add_facet_def Let_def set_area_def set_min_max_def get_vertices_def
      Facet_get_area_def split: sum.splits)

lemma load_line_elim:
  assumes "load_line float (normal, verts, s) line = Inr st'"
  obtains
    (solid) val where "parse_line line = Inr (''solid'', val)"
      and "st' = (normal, verts, set_name s val)"
  | (facet) val n where "parse_line line = Inr (''facet'', val)"
      and "floats float (drop 1 val) = Inr n" and "st' = (Some n, verts, s)"
  | (vertex) val v where "parse_line line = Inr (''vertex'', val)"
      and "floats float val = Inr v" and "st' = (normal, verts @ [v], s)"
  | (endfacet) val s' where "parse_line line = Inr (''endfacet'', val)"
      and "add_facet s normal verts = Inr s'" and "st' = (None, [], s')"
  | (other) key val where "parse_line line = Inr (key, val)"
      and "key \<noteq> ''solid''" and "key \<noteq> ''facet''" and "key \<noteq> ''vertex''"
      and "key \<noteq> ''endfacet''" and "st' = (normal, verts, s)"
proof (cases "parse_line line")
  case (Inl e)
  with assms show ?thesis by (simp add: load_line_def)
next
  case (Inr kv)
  obtain key val where kv: "kv = (key, val)" by (cases kv)
  note pl = Inr [unfolded kv]
  consider "key = ''solid''" | "key = ''facet''" | "key = ''vertex''" | "key = ''endfacet''"
    | "key \<noteq> ''solid''" "key \<noteq> ''facet''" "key \<noteq> ''vertex''" "key \<noteq> ''endfacet''"
    by blast
  then show ?thesis
  proof cases
    case 1
    with assms pl show ?thesis by (intro solid [of val]) (simp_all add: load_line_def)
  next
    case 2
    with assms pl show ?thesis
      by (cases "floats float (drop 1 val)") (auto simp: load_line_def intro: facet [of val])
  next
    case 3
    with assms pl show ?thesis
      by (cases "floats float val") (auto simp: load_line_def intro: vertex [of val])
  next
    case 4
    with assms pl show ?thesis
      by (cases "add_facet s normal verts") (auto simp: load_line_def intro: endfacet [of val])
  next
    case 5
    with assms pl show ?thesis by (intro other [of key val]) (simp_all add: load_line_def)
  qed
qed

text \<open>A property that every iteration keeps holds when the loop ends.\<close>

lemma load_lines_invariant:
  assumes "load_lines float st fp = Inr st'" and "P st"
    and "\<And>st line st'. P st \<Longrightarrow> load_line float st line = Inr st' \<Longrightarrow> P st'"
  shows "P st'"
  using assms(1,2)
proof (induction fp arbitrary: st)
  case Nil
  then show ?case by simp
next
  case (Cons line rest)
  show ?case
  proof (cases "load_line float st line")
    case (Inl e)
    with Cons.prems show ?thesis by simp
  next
    case (Inr st1)
    with Cons.prems have "load_lines float st1 rest = Inr st'" by simp
    moreover from Cons.prems(2) Inr have "P st1" by (rule assms(3))
    ultimately show ?thesis by (rule Cons.IH)
  qed
qed

lemma load_Inr:
  "load float s fp = Inr s' \<Longrightarrow> \<exists>normal verts. load_lines float (None, [], s) fp = Inr (normal, verts, s')"
  by (auto simp: load_def split: sum.splits)

lemma load_lines_append:
  "load_lines float st (fp @ fp') =
     (case load_lines float st fp of Inl e \<Rightarrow> Inl e | Inr st' \<Rightarrow> load_lines float st' fp')"
  by (induction fp arbitrary: st) (auto split: sum.splits)

section \<open>The bounding box\<close>

text \<open>
  Claim C9. For every surface, \<^verbatim>\<open>find_bounds\<close> returns the eight corners of the box
  with one corner at the origin and the opposite corner at \<open>(X, Y, Z) = find_dims\<close>, in
  the order of the source; they are the tuples \<open>{0, X} \<times> {0, Y} \<times> {0, Z}\<close>. The
  minima serve only through the differences: moving all six extents by an offset along
  each axis leaves the result unchanged.
\<close>

theorem find_bounds_origin_box:
  "(case find_dims s of (X, Y, Z) \<Rightarrow>
      find_bounds s = [(0, 0, 0), (0, 0, Z), (0, Y, 0), (0, Y, Z),
                       (X, 0, 0), (X, 0, Z), (X, Y, 0), (X, Y, Z)] \<and>
      set (find_bounds s) = {0, X} \<times> {0, Y} \<times> {0, Z}) \<and>
   length (find_bounds s) = 8 \<and>
   find_dims s = (max_x s - min_x s, max_y s - min_y s, max_z s - min_z s) \<and>
   find_bounds (s\<lparr>min_x := min_x s + dx, max_x := max_x s + dx,
                   min_y := min_y s + dy, max_y := max_y s + dy,
                   min_z := min_z s + dz, max_z := max_z s + dz\<rparr>) = find_bounds s"
proof -
  have "set (find_bounds s) =
      {0, max_x s - min_x s} \<times> {0, max_y s - min_y s} \<times> {0, max_z s - min_z s}"
    by (auto simp: find_bounds_def find_dims_def)
  then show ?thesis
    by (simp add: find_bounds_def find_dims_def)
qed

theorem find_bounds_origin_box_example:
  "find_bounds (Surface_init\<lparr>min_x := 1, max_x := 5, min_y := 2, max_y := 6, min_z := 0, max_z := 3\<rparr>) =
     [(0, 0, 0), (0, 0, 3), (0, 4, 0), (0, 4, 3), (4, 0, 0), (4, 0, 3), (4, 4, 0), (4, 4, 3)]"
  using find_bounds_origin_box
    [of "Surface_init\<lparr>min_x := 1, max_x := 5, min_y := 2, max_y := 6, min_z := 0, max_z := 3\<rparr>" 0 0 0]
  by (simp add: find_dims_def Surface_init_def)

section \<open>The area of a facet\<close>

lemma sqrt3_triangle:
  fixes a b c d e f :: real
  shows "sqrt ((a + d)\<^sup>2 + (b + e)\<^sup>2 + (c + f)\<^sup>2)
           \<le> sqrt (a\<^sup>2 + b\<^sup>2 + c\<^sup>2) + sqrt (d\<^sup>2 + e\<^sup>2 + f\<^sup>2)"
proof -
  let ?u = "sqrt ((a + d)\<^sup>2 + (b + e)\<^sup>2)"
  let ?u1 = "sqrt (a\<^sup>2 + b\<^sup>2)" and ?u2 = "sqrt (d\<^sup>2 + e\<^sup>2)"
  have u: "?u \<le> ?u1 + ?u2" by (rule real_sqrt_sum_squares_triangle_ineq)
  have "0 \<le> ?u" by simp
  with u have "?u\<^sup>2 \<le> (?u1 + ?u2)\<^sup>2" by (rule power_mono)
  then have "sqrt (?u\<^sup>2 + (c + f)\<^sup>2) \<le> sqrt ((?u1 + ?u2)\<^sup>2 + (c + f)\<^sup>2)" by simp
  also have "\<dots> \<le> sqrt (?u1\<^sup>2 + c\<^sup>2) + sqrt (?u2\<^sup>2 + f\<^sup>2)"
    by (rule real_sqrt_sum_squares_triangle_ineq)
  finally show ?thesis by simp
qed

lemma euclidean_nonneg: "0 \<le> euclidean p q"
  by (simp add: euclidean_def)

lemma euclidean_triangle: "euclidean p r \<le> euclidean p q + euclidean q r"
  using sqrt3_triangle [of "x p - x q" "x q - x r" "y p - y q" "y q - y r" "z p - z q" "z q - z r"]
  by (simp add: euclidean_def)

lemma euclidean_commute: "euclidean p q = euclidean q p"
  by (simp add: euclidean_def power2_commute)

text \<open>The number under the root of Heron's formula is not negative, so that the power
  \<^verbatim>\<open>**.5\<close> of \<^verbatim>\<open>find_area\<close> is a square root in exact arithmetic.\<close>

lemma heron_radicand_nonneg:
  fixes a b c :: Point
  defines "ab \<equiv> distance a b" and "bc \<equiv> distance b c" and "ca \<equiv> distance c a"
  defines "s \<equiv> 0.5 * (ab + bc + ca)"
  shows "0 \<le> s * (s - ab) * (s - bc) * (s - ca)"
proof -
  have "ab \<le> bc + ca"
    using euclidean_triangle [of a b c] by (simp add: ab_def bc_def ca_def distance_euclidean euclidean_commute)
  moreover have "bc \<le> ab + ca"
    using euclidean_triangle [of b c a] by (simp add: ab_def bc_def ca_def distance_euclidean euclidean_commute)
  moreover have "ca \<le> ab + bc"
    using euclidean_triangle [of c a b] by (simp add: ab_def bc_def ca_def distance_euclidean euclidean_commute)
  moreover have "0 \<le> ab" "0 \<le> bc" "0 \<le> ca"
    by (simp_all add: ab_def bc_def ca_def distance_euclidean euclidean_nonneg)
  ultimately have "0 \<le> s" "0 \<le> s - ab" "0 \<le> s - bc" "0 \<le> s - ca"
    by (simp_all add: s_def)
  then show ?thesis by simp
qed

lemma load_line_areas:
  assumes "load_line float st line = Inr st'"
    and "\<forall>g\<in>set (facets (snd (snd st))). Facet.area g = find_area (A g) (B g) (C g)"
  shows "\<forall>g\<in>set (facets (snd (snd st'))). Facet.area g = find_area (A g) (B g) (C g)"
proof -
  obtain normal verts s where st: "st = (normal, verts, s)" by (cases st)
  from assms(1) [unfolded st] assms(2) show ?thesis unfolding st
    by (cases rule: load_line_elim)
      (auto simp: set_name_def elim!: add_facet_Inr dest: Facet_init_area)
qed

lemma load_areas:
  assumes "load float Surface_init fp = Inr s"
  shows "\<forall>g\<in>set (facets s). Facet.area g = find_area (A g) (B g) (C g)"
proof -
  from assms obtain normal verts where
    l: "load_lines float (None, [], Surface_init) fp = Inr (normal, verts, s)"
    by (auto dest: load_Inr)
  have "\<forall>g\<in>set (facets (snd (snd (normal, verts, s)))). Facet.area g = find_area (A g) (B g) (C g)"
    using l
  proof (rule load_lines_invariant)
    show "\<forall>g\<in>set (facets (snd (snd (None, [], Surface_init)))). Facet.area g = find_area (A g) (B g) (C g)"
      by (simp add: Surface_init_def)
  qed (rule load_line_areas)
  then show ?thesis by simp
qed

text \<open>
  Claim C1. A facet built from the vertices A, B, C stores the area
  \<open>sqrt (s * (s - ab) * (s - bc) * (s - ca))\<close>, for the Euclidean distances \<open>ab\<close>,
  \<open>bc\<close>, \<open>ca\<close> of its vertices and \<open>s = (ab + bc + ca) / 2\<close>; the accessor returns the
  stored value, and every facet of a loaded surface still carries that area.
\<close>

theorem facet_area_heron:
  "(Facet_init n v = Inr f \<longrightarrow>
      Facet.area f = heron (euclidean (A f) (B f)) (euclidean (B f) (C f)) (euclidean (C f) (A f)) \<and>
      Facet_get_area f = Facet.area f) \<and>
   (load float Surface_init fp = Inr s \<longrightarrow>
      (\<forall>g\<in>set (get_facets s).
         Facet_get_area g =
           heron (euclidean (A g) (B g)) (euclidean (B g) (C g)) (euclidean (C g) (A g))))"
proof (intro conjI impI)
  assume "Facet_init n v = Inr f"
  then show "Facet.area f = heron (euclidean (A f) (B f)) (euclidean (B f) (C f)) (euclidean (C f) (A f))"
    by (simp add: Facet_init_area find_area_heron)
next
  show "Facet_get_area f = Facet.area f" by (simp add: Facet_get_area_def)
next
  assume "load float Surface_init fp = Inr s"
  then show "\<forall>g\<in>set (get_facets s).
      Facet_get_area g = heron (euclidean (A g) (B g)) (euclidean (B g) (C g)) (euclidean (C g) (A g))"
    by (auto simp: get_facets_def Facet_get_area_def find_area_heron dest: load_areas)
qed


theorem facet_area_heron_example:
  "\<exists>f s. Facet_init (Some [0, 0, 1]) [[0, 0, 0], [3, 0, 0], [0, 4, 0]] = Inr f \<and>
     Facet.area f = 6 \<and>
     load float_int Surface_init
       [''facet normal 0 0 1'', ''vertex 0 0 0'', ''vertex 3 0 0'', ''vertex 0 4 0'',
        ''endfacet''] = Inr s \<and>
     map Facet_get_area (get_facets s) = [6]"
proof -
  let ?v = "[[0, 0, 0], [3, 0, 0], [0, 4, 0 :: real]]"
  let ?fp = "[''facet normal 0 0 1'', ''vertex 0 0 0'', ''vertex 3 0 0'', ''vertex 0 4 0'',
        ''endfacet'']"
  obtain f where f: "Facet_init (Some [0, 0, 1]) ?v = Inr f"
    and abc: "A f = \<lparr>x = 0, y = 0, z = 0\<rparr>" "B f = \<lparr>x = 3, y = 0, z = 0\<rparr>"
      "C f = \<lparr>x = 0, y = 4, z = 0\<rparr>"
    by (simp add: Facet_init_def vertex_at_def index_def)
  obtain s where s: "load float_int Surface_init ?fp = Inr s" and fs: "get_facets s = [f]"
    using f by (simp add: run_defs)
  have r: "sqrt 9 = 3" "sqrt 16 = 4" "sqrt 25 = 5" "sqrt 36 = 6"
    using real_sqrt_abs [of 3] real_sqrt_abs [of 4] real_sqrt_abs [of 5] real_sqrt_abs [of 6]
    by simp_all
  have h: "heron (euclidean (A f) (B f)) (euclidean (B f) (C f)) (euclidean (C f) (A f)) = 6"
    by (simp add: abc euclidean_def heron_def r)
  from facet_area_heron [of "Some [0, 0, 1]" ?v f float_int ?fp s] f s fs h
  have "Facet.area f = 6" and "Facet_get_area f = 6" by simp_all
  with f s fs show ?thesis by simp
qed

subsection \<open>Collinear vertices\<close>

lemma sqrt3_scale:
  fixes t u v w :: real
  shows "sqrt ((t * u)\<^sup>2 + (t * v)\<^sup>2 + (t * w)\<^sup>2) = \<bar>t\<bar> * sqrt (u\<^sup>2 + v\<^sup>2 + w\<^sup>2)"
proof -
  have "(t * u)\<^sup>2 + (t * v)\<^sup>2 + (t * w)\<^sup>2 = t\<^sup>2 * (u\<^sup>2 + v\<^sup>2 + w\<^sup>2)"
    by (simp add: power_mult_distrib distrib_left)
  then show ?thesis by (simp add: real_sqrt_mult)
qed

lemma collinear_distances:
  assumes "x c = x a + t * (x b - x a)" and "y c = y a + t * (y b - y a)"
    and "z c = z a + t * (z b - z a)"
  shows "distance c a = \<bar>t\<bar> * distance a b" and "distance b c = \<bar>1 - t\<bar> * distance a b"
proof -
  have "distance c a = sqrt ((t * (x b - x a))\<^sup>2 + (t * (y b - y a))\<^sup>2 + (t * (z b - z a))\<^sup>2)"
    by (simp add: distance_def assms power2_commute [of "x a"] power2_commute [of "y a"]
        power2_commute [of "z a"])
  then show "distance c a = \<bar>t\<bar> * distance a b"
    by (simp add: sqrt3_scale distance_def)
  have "x c - x b = (t - 1) * (x b - x a)" "y c - y b = (t - 1) * (y b - y a)"
    "z c - z b = (t - 1) * (z b - z a)"
    by (simp_all add: assms algebra_simps)
  then have "distance b c =
      sqrt (((t - 1) * (x b - x a))\<^sup>2 + ((t - 1) * (y b - y a))\<^sup>2 + ((t - 1) * (z b - z a))\<^sup>2)"
    by (simp add: distance_def)
  then show "distance b c = \<bar>1 - t\<bar> * distance a b"
    by (simp add: sqrt3_scale distance_def abs_minus_commute)
qed

text \<open>In exact arithmetic the area of three collinear vertices is 0: one of the factors
  under the root vanishes. \<^verbatim>\<open>find_area\<close> has no guard on the sign of the number
  under the root, which rounding can make negative.\<close>

lemma collinear_area_zero:
  assumes "x c = x a + t * (x b - x a)" and "y c = y a + t * (y b - y a)"
    and "z c = z a + t * (z b - z a)"
  shows "find_area a b c = 0"
proof -
  let ?d = "distance a b"
  note d = collinear_distances [OF assms]
  let ?s = "0.5 * (?d + \<bar>1 - t\<bar> * ?d + \<bar>t\<bar> * ?d)"
  have "(?s - ?d) * (?s - \<bar>1 - t\<bar> * ?d) * (?s - \<bar>t\<bar> * ?d) = 0"
  proof -
    consider "t < 0" | "0 \<le> t" "t \<le> 1" | "1 < t" by linarith
    then show ?thesis
    proof cases
      case 1
      then have "?s - \<bar>1 - t\<bar> * ?d = 0" by (simp add: algebra_simps)
      then show ?thesis by simp
    next
      case 2
      then have "?s - ?d = 0" by (simp add: algebra_simps)
      then show ?thesis by simp
    next
      case 3
      then have "?s - \<bar>t\<bar> * ?d = 0" by (simp add: algebra_simps)
      then show ?thesis by simp
    qed
  qed
  then have "?s * (?s - ?d) * (?s - \<bar>1 - t\<bar> * ?d) * (?s - \<bar>t\<bar> * ?d) = 0"
    by (simp add: mult.assoc)
  then show ?thesis
    by (simp add: find_area_def Let_def d del: mult_eq_0_iff)
qed

text \<open>The distances of the vertices \<open>(-1, 2, 0)\<close>, \<open>(1, 4, -4)\<close>, \<open>(-5, -2, 8)\<close> are
  the roots of 24, 216 and 96. The doubles nearest to them are \<open>5515760546423086 / 2^50\<close>,
  \<open>8273640819634630 / 2^49\<close> and \<open>5515760546423086 / 2^49\<close>: each root lies within half
  a unit of the last place.\<close>

lemma nearest_roots:
  "(2 * 5515760546423086 - 1) / 2 ^ 51 < sqrt 24" "sqrt 24 < (2 * 5515760546423086 + 1) / 2 ^ 51"
  "(2 * 8273640819634630 - 1) / 2 ^ 50 < sqrt 216" "sqrt 216 < (2 * 8273640819634630 + 1) / 2 ^ 50"
  "(2 * 5515760546423086 - 1) / 2 ^ 50 < sqrt 96" "sqrt 96 < (2 * 5515760546423086 + 1) / 2 ^ 50"
proof -
  show "(2 * 5515760546423086 - 1) / 2 ^ 51 < sqrt 24"
    by (rule real_less_rsqrt) (simp add: power2_eq_square)
  show "sqrt 24 < (2 * 5515760546423086 + 1) / 2 ^ 51"
    by (rule real_less_lsqrt) (simp_all add: power2_eq_square)
  show "(2 * 8273640819634630 - 1) / 2 ^ 50 < sqrt 216"
    by (rule real_less_rsqrt) (simp add: power2_eq_square)
  show "sqrt 216 < (2 * 8273640819634630 + 1) / 2 ^ 50"
    by (rule real_less_lsqrt) (simp_all add: power2_eq_square)
  show "(2 * 5515760546423086 - 1) / 2 ^ 50 < sqrt 96"
    by (rule real_less_rsqrt) (simp add: power2_eq_square)
  show "sqrt 96 < (2 * 5515760546423086 + 1) / 2 ^ 50"
    by (rule real_less_lsqrt) (simp_all add: power2_eq_square)
qed

text \<open>
  Claim C2. The vertices \<open>(-1, 2, 0)\<close>, \<open>(1, 4, -4)\<close>, \<open>(-5, -2, 8)\<close> are collinear. In
  exact arithmetic their area is 0. In the doubles of the program, from the three
  distances rounded to the nearest double, the number under the root is the negative
  double \<open>- 6205230614725971 / 2^92\<close>: nothing guards its sign, and the area is a
  complex number, not 0.
\<close>

theorem collinear_area_complex_in_doubles:
  "find_area \<lparr>x = - 1, y = 2, z = 0\<rparr> \<lparr>x = 1, y = 4, z = - 4\<rparr> \<lparr>x = - 5, y = - 2, z = 8\<rparr> = 0 \<and>
   radicand_double (Double 5515760546423086 (- 50)) (Double 8273640819634630 (- 49))
     (Double 5515760546423086 (- 49)) = Double (- 6205230614725971) (- 92) \<and>
   heron_double pow_half (Double 5515760546423086 (- 50)) (Double 8273640819634630 (- 49))
     (Double 5515760546423086 (- 49)) = PyComplex"
proof -
  have e: "find_area \<lparr>x = - 1, y = 2, z = 0\<rparr> \<lparr>x = 1, y = 4, z = - 4\<rparr> \<lparr>x = - 5, y = - 2, z = 8\<rparr> = 0"
    by (rule collinear_area_zero [where t = "- 2"]) simp_all
  have r: "radicand_double (Double 5515760546423086 (- 50)) (Double 8273640819634630 (- 49))
     (Double 5515760546423086 (- 49)) = Double (- 6205230614725971) (- 92)"
    by code_simp
  from e r show ?thesis by (simp add: heron_double_def)
qed

section \<open>The running extents\<close>

lemma least_snoc: "least g (fs @ [f]) = min (least g fs) (g f)"
proof -
  have "Min (insert (g f) (insert 0 (g ` set fs))) = min (g f) (Min (insert 0 (g ` set fs)))"
    by (intro Min_insert) simp_all
  then show ?thesis by (simp add: least_def insert_commute min.commute del: Min_insert)
qed

lemma greatest_snoc: "greatest g (fs @ [f]) = max (greatest g fs) (g f)"
proof -
  have "Max (insert (g f) (insert 0 (g ` set fs))) = max (g f) (Max (insert 0 (g ` set fs)))"
    by (intro Max_insert) simp_all
  then show ?thesis by (simp add: greatest_def insert_commute max.commute del: Max_insert)
qed

lemma least_Nil: "least g [] = 0" and greatest_Nil: "greatest g [] = 0"
  by (simp_all add: least_def greatest_def)

lemma least_le: "least g fs \<le> 0" and greatest_ge: "0 \<le> greatest g fs"
  by (simp_all add: least_def greatest_def)

lemma add_facet_seeded:
  assumes "add_facet s n verts = Inr s'" and "seeded s"
  shows "seeded s'"
  using assms
  by (auto elim!: add_facet_Inr simp: seeded_def least_snoc greatest_snoc)

lemma load_line_seeded:
  assumes "load_line float st line = Inr st'" and "seeded (snd (snd st))"
  shows "seeded (snd (snd st'))"
proof -
  obtain normal verts s where st: "st = (normal, verts, s)" by (cases st)
  from assms(1) [unfolded st] assms(2) show ?thesis unfolding st
  proof (cases rule: load_line_elim)
    case (solid val)
    with assms(2) show ?thesis by (simp add: st set_name_def seeded_def)
  next
    case (endfacet val s')
    with assms(2) show ?thesis by (auto simp: st intro: add_facet_seeded)
  qed (use assms(2) in \<open>simp_all add: st\<close>)
qed

lemma load_seeded:
  assumes "load float Surface_init fp = Inr s"
  shows "seeded s"
proof -
  from assms obtain normal verts where
    l: "load_lines float (None, [], Surface_init) fp = Inr (normal, verts, s)"
    by (auto dest: load_Inr)
  have "seeded (snd (snd (normal, verts, s)))"
    using l
  proof (rule load_lines_invariant)
    show "seeded (snd (snd (None, [], Surface_init)))"
      by (simp add: Surface_init_def seeded_def least_Nil greatest_Nil)
  qed (rule load_line_seeded)
  then show ?thesis by simp
qed


lemma Facet_init_first:
  assumes "Facet_init n (a # rest) = Inr f"
  shows "a = [x (A f), y (A f), z (A f)]"
proof -
  from assms obtain p where "vertex_at (a # rest) 0 = Inr p" and "A f = p"
    by (auto elim!: Facet_init_Inr)
  then show ?thesis
    by (cases a rule: Point_new.cases) (auto simp: vertex_at_def index_def)
qed

text \<open>
  Claim C3. \<^verbatim>\<open>add_facet\<close> updates the six extents from the first vertex of the
  facet alone: two calls on the same surface whose vertex lists start with the same
  vertex, whatever the other vertices and the normals, leave the same extents, the same
  \<^verbatim>\<open>find_dims\<close>, \<^verbatim>\<open>find_bounds\<close> and \<^verbatim>\<open>get_bounding_box_volume\<close>; each
  extent is the minimum or maximum of its old value and a coordinate of that vertex.
  After a load into a new surface the extents are the least and greatest of 0 and the
  coordinates of the first vertices of the facets.
\<close>

theorem extents_from_first_vertex:
  "(add_facet s n (a # rest) = Inr s1 \<and> add_facet s n' (a # rest') = Inr s2 \<longrightarrow>
      (\<exists>ax ay az. a = [ax, ay, az] \<and>
         min_x s1 = min (min_x s) ax \<and> max_x s1 = max (max_x s) ax \<and>
         min_y s1 = min (min_y s) ay \<and> max_y s1 = max (max_y s) ay \<and>
         min_z s1 = min (min_z s) az \<and> max_z s1 = max (max_z s) az) \<and>
      min_x s1 = min_x s2 \<and> max_x s1 = max_x s2 \<and> min_y s1 = min_y s2 \<and>
      max_y s1 = max_y s2 \<and> min_z s1 = min_z s2 \<and> max_z s1 = max_z s2 \<and>
      find_dims s1 = find_dims s2 \<and> find_bounds s1 = find_bounds s2 \<and>
      get_bounding_box_volume s1 = get_bounding_box_volume s2) \<and>
   (load float Surface_init fp = Inr s' \<longrightarrow>
      min_x s' = least (\<lambda>f. x (A f)) (facets s') \<and>
      max_x s' = greatest (\<lambda>f. x (A f)) (facets s') \<and>
      min_y s' = least (\<lambda>f. y (A f)) (facets s') \<and>
      max_y s' = greatest (\<lambda>f. y (A f)) (facets s') \<and>
      min_z s' = least (\<lambda>f. z (A f)) (facets s') \<and>
      max_z s' = greatest (\<lambda>f. z (A f)) (facets s'))"
proof (intro conjI impI)
  assume "load float Surface_init fp = Inr s'"
  then have "seeded s'" by (rule load_seeded)
  then show "min_x s' = least (\<lambda>f. x (A f)) (facets s')"
    "max_x s' = greatest (\<lambda>f. x (A f)) (facets s')"
    "min_y s' = least (\<lambda>f. y (A f)) (facets s')"
    "max_y s' = greatest (\<lambda>f. y (A f)) (facets s')"
    "min_z s' = least (\<lambda>f. z (A f)) (facets s')"
    "max_z s' = greatest (\<lambda>f. z (A f)) (facets s')"
    by (simp_all add: seeded_def)
next
  assume both: "add_facet s n (a # rest) = Inr s1 \<and> add_facet s n' (a # rest') = Inr s2"
  from both obtain f1 where f1: "Facet_init n (a # rest) = Inr f1"
    and m1: "min_x s1 = min (min_x s) (x (A f1))" "max_x s1 = max (max_x s) (x (A f1))"
      "min_y s1 = min (min_y s) (y (A f1))" "max_y s1 = max (max_y s) (y (A f1))"
      "min_z s1 = min (min_z s) (z (A f1))" "max_z s1 = max (max_z s) (z (A f1))"
    by (auto elim!: add_facet_Inr)
  from both obtain f2 where f2: "Facet_init n' (a # rest') = Inr f2"
    and m2: "min_x s2 = min (min_x s) (x (A f2))" "max_x s2 = max (max_x s) (x (A f2))"
      "min_y s2 = min (min_y s) (y (A f2))" "max_y s2 = max (max_y s) (y (A f2))"
      "min_z s2 = min (min_z s) (z (A f2))" "max_z s2 = max (max_z s) (z (A f2))"
    by (auto elim!: add_facet_Inr)
  have a1: "a = [x (A f1), y (A f1), z (A f1)]" using f1 by (rule Facet_init_first)
  have a2: "a = [x (A f2), y (A f2), z (A f2)]" using f2 by (rule Facet_init_first)
  from a1 a2 have eq: "x (A f1) = x (A f2)" "y (A f1) = y (A f2)" "z (A f1) = z (A f2)"
    by simp_all
  show "\<exists>ax ay az. a = [ax, ay, az] \<and>
         min_x s1 = min (min_x s) ax \<and> max_x s1 = max (max_x s) ax \<and>
         min_y s1 = min (min_y s) ay \<and> max_y s1 = max (max_y s) ay \<and>
         min_z s1 = min (min_z s) az \<and> max_z s1 = max (max_z s) az"
    using a1 m1 by blast
  show "min_x s1 = min_x s2" "max_x s1 = max_x s2" "min_y s1 = min_y s2"
    "max_y s1 = max_y s2" "min_z s1 = min_z s2" "max_z s1 = max_z s2"
    by (simp_all add: m1 m2 eq)
  then show "find_dims s1 = find_dims s2" by (simp add: find_dims_def)
  then show "find_bounds s1 = find_bounds s2"
    "get_bounding_box_volume s1 = get_bounding_box_volume s2"
    by (simp_all add: find_bounds_def get_bounding_box_volume_def)
qed


theorem extents_from_first_vertex_example:
  "\<exists>s1 s2 s'. add_facet Surface_init None ([1, 2, 3] # [[9, 9, 9], [7, 8, 9]]) = Inr s1 \<and>
     add_facet Surface_init (Some [0, 0, 1]) ([1, 2, 3] # [[- 4, - 4, - 4], [0, 0, 0]]) = Inr s2 \<and>
     find_dims s1 = (1, 2, 3) \<and> find_dims s2 = (1, 2, 3) \<and>
     find_bounds s1 = find_bounds s2 \<and>
     get_bounding_box_volume s1 = get_bounding_box_volume s2 \<and>
     load float_int Surface_init
       [''facet normal 0 0 1'', ''vertex 1 2 3'', ''vertex 9 9 9'', ''vertex 7 8 9'',
        ''endfacet''] = Inr s' \<and>
     max_x s' = greatest (\<lambda>f. x (A f)) (facets s') \<and> max_x s' = 1"
proof -
  let ?fp = "[''facet normal 0 0 1'', ''vertex 1 2 3'', ''vertex 9 9 9'', ''vertex 7 8 9'',
        ''endfacet'']"
  obtain s1 where s1: "add_facet Surface_init None ([1, 2, 3] # [[9, 9, 9], [7, 8, 9]]) = Inr s1"
    and d1: "find_dims s1 = (1, 2, 3)"
    by (simp add: run_defs find_dims_def)
  obtain s2 where s2: "add_facet Surface_init (Some [0, 0, 1])
      ([1, 2, 3] # [[- 4, - 4, - 4], [0, 0, 0]]) = Inr s2"
    by (simp add: run_defs)
  obtain s' where s': "load float_int Surface_init ?fp = Inr s'" and m: "max_x s' = 1"
    by (simp add: run_defs)
  from extents_from_first_vertex [of Surface_init None "[1, 2, 3]" "[[9, 9, 9], [7, 8, 9]]" s1
      "Some [0, 0, 1]" "[[- 4, - 4, - 4], [0, 0, 0]]" s2 float_int ?fp s'] s1 s2 s' d1 m
  show ?thesis by simp
qed

lemma greatest_eqI:
  assumes "\<forall>f\<in>set fs. g f \<le> m" and "\<exists>f\<in>set fs. g f = m" and "0 \<le> m"
  shows "greatest g fs = m"
  unfolding greatest_def using assms by (intro Max_eqI) auto

lemma least_eq_0:
  assumes "\<forall>f\<in>set fs. 0 \<le> g f"
  shows "least g fs = 0"
  unfolding least_def using assms by (intro Min_eqI) auto

lemma load_line_widens:
  assumes "load_line float st line = Inr st'"
    and "min_x (snd (snd st)) \<le> a \<and> b \<le> max_x (snd (snd st)) \<and>
         min_y (snd (snd st)) \<le> c \<and> d \<le> max_y (snd (snd st)) \<and>
         min_z (snd (snd st)) \<le> e \<and> g \<le> max_z (snd (snd st))"
  shows "min_x (snd (snd st')) \<le> a \<and> b \<le> max_x (snd (snd st')) \<and>
         min_y (snd (snd st')) \<le> c \<and> d \<le> max_y (snd (snd st')) \<and>
         min_z (snd (snd st')) \<le> e \<and> g \<le> max_z (snd (snd st'))"
proof -
  obtain normal verts s where st: "st = (normal, verts, s)" by (cases st)
  from assms(1) [unfolded st] assms(2) show ?thesis unfolding st
    by (cases rule: load_line_elim) (auto simp: set_name_def elim!: add_facet_Inr)
qed

lemma load_widens:
  assumes "load float s fp = Inr s'"
  shows "min_x s' \<le> min_x s \<and> max_x s \<le> max_x s' \<and>
         min_y s' \<le> min_y s \<and> max_y s \<le> max_y s' \<and>
         min_z s' \<le> min_z s \<and> max_z s \<le> max_z s'"
proof -
  from assms obtain normal verts where
    l: "load_lines float (None, [], s) fp = Inr (normal, verts, s')"
    by (auto dest: load_Inr)
  have "min_x (snd (snd (normal, verts, s'))) \<le> min_x s \<and> max_x s \<le> max_x (snd (snd (normal, verts, s'))) \<and>
         min_y (snd (snd (normal, verts, s'))) \<le> min_y s \<and> max_y s \<le> max_y (snd (snd (normal, verts, s'))) \<and>
         min_z (snd (snd (normal, verts, s'))) \<le> min_z s \<and> max_z s \<le> max_z (snd (snd (normal, verts, s')))"
    using l
  proof (rule load_lines_invariant)
    show "min_x (snd (snd (None, [], s))) \<le> min_x s \<and> max_x s \<le> max_x (snd (snd (None, [], s))) \<and>
         min_y (snd (snd (None, [], s))) \<le> min_y s \<and> max_y s \<le> max_y (snd (snd (None, [], s))) \<and>
         min_z (snd (snd (None, [], s))) \<le> min_z s \<and> max_z s \<le> max_z (snd (snd (None, [], s)))"
      by simp
  qed (rule load_line_widens)
  then show ?thesis by simp
qed

text \<open>
  Claim C4. A new surface has its six extents at 0. A load never raises a minimum nor
  lowers a maximum, and after a load into a new surface every minimum is at most 0 and
  every maximum at least 0. When the first vertices of
  the loaded facets lie in \<open>[1, 5] \<times> [2, 6] \<times> [0, 3]\<close> and reach 5, 6 and 3,
  \<^verbatim>\<open>find_dims\<close> is \<open>(5, 6, 3)\<close> and \<^verbatim>\<open>get_bounding_box_volume\<close> is 90.
\<close>

theorem extents_seeded_at_zero:
  "min_x Surface_init = 0 \<and> max_x Surface_init = 0 \<and> min_y Surface_init = 0 \<and>
   max_y Surface_init = 0 \<and> min_z Surface_init = 0 \<and> max_z Surface_init = 0 \<and>
   (load float u fq = Inr u' \<longrightarrow>
      min_x u' \<le> min_x u \<and> max_x u \<le> max_x u' \<and> min_y u' \<le> min_y u \<and>
      max_y u \<le> max_y u' \<and> min_z u' \<le> min_z u \<and> max_z u \<le> max_z u') \<and>
   (load float Surface_init fp = Inr s \<longrightarrow>
      min_x s \<le> 0 \<and> 0 \<le> max_x s \<and> min_y s \<le> 0 \<and> 0 \<le> max_y s \<and>
      min_z s \<le> 0 \<and> 0 \<le> max_z s \<and>
      ((\<forall>f\<in>set (facets s). 1 \<le> x (A f) \<and> x (A f) \<le> 5 \<and> 2 \<le> y (A f) \<and> y (A f) \<le> 6 \<and>
            0 \<le> z (A f) \<and> z (A f) \<le> 3) \<and>
       (\<exists>f\<in>set (facets s). x (A f) = 5) \<and> (\<exists>f\<in>set (facets s). y (A f) = 6) \<and>
       (\<exists>f\<in>set (facets s). z (A f) = 3) \<longrightarrow>
       find_dims s = (5, 6, 3) \<and> get_bounding_box_volume s = 90))"
proof (intro conjI impI)
  show "min_x Surface_init = 0" "max_x Surface_init = 0" "min_y Surface_init = 0"
    "max_y Surface_init = 0" "min_z Surface_init = 0" "max_z Surface_init = 0"
    by (simp_all add: Surface_init_def)
next
  assume "load float u fq = Inr u'"
  from load_widens [OF this]
  show "min_x u' \<le> min_x u" "max_x u \<le> max_x u'" "min_y u' \<le> min_y u"
    "max_y u \<le> max_y u'" "min_z u' \<le> min_z u" "max_z u \<le> max_z u'"
    by simp_all
next
  assume "load float Surface_init fp = Inr s"
  then have sd: "seeded s" by (rule load_seeded)
  then show "min_x s \<le> 0" "0 \<le> max_x s" "min_y s \<le> 0" "0 \<le> max_y s" "min_z s \<le> 0"
    "0 \<le> max_z s"
    by (simp_all add: seeded_def least_le greatest_ge)
  assume span: "(\<forall>f\<in>set (facets s). 1 \<le> x (A f) \<and> x (A f) \<le> 5 \<and> 2 \<le> y (A f) \<and> y (A f) \<le> 6 \<and>
            0 \<le> z (A f) \<and> z (A f) \<le> 3) \<and>
       (\<exists>f\<in>set (facets s). x (A f) = 5) \<and> (\<exists>f\<in>set (facets s). y (A f) = 6) \<and>
       (\<exists>f\<in>set (facets s). z (A f) = 3)"
  have "least (\<lambda>f. x (A f)) (facets s) = 0" "least (\<lambda>f. y (A f)) (facets s) = 0"
    "least (\<lambda>f. z (A f)) (facets s) = 0"
    using span by (auto intro!: least_eq_0)
  moreover have "greatest (\<lambda>f. x (A f)) (facets s) = 5" "greatest (\<lambda>f. y (A f)) (facets s) = 6"
    "greatest (\<lambda>f. z (A f)) (facets s) = 3"
    using span by (auto intro!: greatest_eqI)
  ultimately show "find_dims s = (5, 6, 3)"
    using sd by (simp add: seeded_def find_dims_def)
  then show "get_bounding_box_volume s = 90"
    by (simp add: get_bounding_box_volume_def)
qed

theorem extents_seeded_at_zero_example:
  "\<exists>s. load float_int Surface_init
       [''solid box'',
        ''facet normal 0 0 1'', ''vertex 1 2 0'', ''vertex 9 9 9'', ''vertex 7 8 9'',
        ''endfacet'',
        ''facet normal 0 0 1'', ''vertex 5 6 3'', ''vertex -4 -4 -4'', ''vertex 0 0 0'',
        ''endfacet'',
        ''endsolid box''] = Inr s \<and>
     min_x s = 0 \<and> find_dims s = (5, 6, 3) \<and> get_bounding_box_volume s = 90"
proof -
  let ?fp = "[''solid box'',
        ''facet normal 0 0 1'', ''vertex 1 2 0'', ''vertex 9 9 9'', ''vertex 7 8 9'',
        ''endfacet'',
        ''facet normal 0 0 1'', ''vertex 5 6 3'', ''vertex -4 -4 -4'', ''vertex 0 0 0'',
        ''endfacet'',
        ''endsolid box'']"
  obtain s where s: "load float_int Surface_init ?fp = Inr s"
    and a: "map (\<lambda>f. (x (A f), y (A f), z (A f))) (facets s) = [(1, 2, 0), (5, 6, 3)]"
    and m: "min_x s = 0"
    by (simp add: run_defs)
  from a obtain f1 f2 where fs: "facets s = [f1, f2]"
    and c: "x (A f1) = 1" "y (A f1) = 2" "z (A f1) = 0" "x (A f2) = 5" "y (A f2) = 6" "z (A f2) = 3"
    by auto
  from extents_seeded_at_zero [where float = float_int and fp = ?fp and s = s
      and u = Surface_init and fq = ?fp and u' = s] s fs c
  have "find_dims s = (5, 6, 3) \<and> get_bounding_box_volume s = 90" by simp
  with s m show ?thesis by blast
qed

section \<open>Lines and tokens\<close>

lemma split_from_Nil_iff: "split_from w l = [] \<longleftrightarrow> w = [] \<and> list_all isspace l"
  by (induction l arbitrary: w) auto

lemma split_Nil_iff: "split l = [] \<longleftrightarrow> blank l"
  by (simp add: split_def blank_def split_from_Nil_iff)

lemma parse_line_split:
  "parse_line l = (case split l of [] \<Rightarrow> Inl IndexError | k # val \<Rightarrow> Inr (k, val))"
  by (simp add: parse_line_def index_def Let_def split: list.splits)

lemma parse_line_blank: "blank l \<Longrightarrow> parse_line l = Inl IndexError"
  by (simp add: parse_line_split split_Nil_iff [symmetric])

lemma load_line_blank: "blank l \<Longrightarrow> load_line float st l = Inl IndexError"
  by (cases st) (simp add: load_line_def parse_line_blank)

text \<open>
  Claim C10. A blank line has no words, so the lookup of the first word fails with
  \<^verbatim>\<open>IndexError\<close>: the iteration of the loop on such a line fails in every state, and
  no load of an input holding such a line returns. The load fails at that line with
  \<^verbatim>\<open>IndexError\<close> when the lines before it were read (if one of them raises, the load
  has failed there).
\<close>

theorem blank_line_raises:
  "blank l \<longrightarrow>
     split l = [] \<and> parse_line l = Inl IndexError \<and>
     load_line float st l = Inl IndexError \<and>
     load float s (pre @ l # rest) =
       (case load_lines float (None, [], s) pre of Inl e \<Rightarrow> Inl e | Inr st' \<Rightarrow> Inl IndexError) \<and>
     (\<forall>s'. load float s (pre @ l # rest) \<noteq> Inr s')"
proof
  assume b: "blank l"
  have 1: "load float s (pre @ l # rest) =
       (case load_lines float (None, [], s) pre of Inl e \<Rightarrow> Inl e | Inr st' \<Rightarrow> Inl IndexError)"
    by (simp add: load_def load_lines_append load_line_blank [OF b] split: sum.splits)
  then have "\<forall>s'. load float s (pre @ l # rest) \<noteq> Inr s'"
    by (simp split: sum.splits)
  with b 1 show "split l = [] \<and> parse_line l = Inl IndexError \<and>
     load_line float st l = Inl IndexError \<and>
     load float s (pre @ l # rest) =
       (case load_lines float (None, [], s) pre of Inl e \<Rightarrow> Inl e | Inr st' \<Rightarrow> Inl IndexError) \<and>
     (\<forall>s'. load float s (pre @ l # rest) \<noteq> Inr s')"
    by (simp add: split_Nil_iff parse_line_blank load_line_blank)
qed

theorem blank_line_raises_example:
  "blank [CHR 0x0A] \<and>
   load float_int Surface_init ([''solid a''] @ [CHR 0x0A] # [''endsolid a'']) = Inl IndexError \<and>
   blank [CHR 0x20, CHR 0x09, CHR 0x0A] \<and>
   load float_int Surface_init
     ([''facet normal 0 0 1'', ''vertex 0 0 0''] @ [CHR 0x20, CHR 0x09, CHR 0x0A] # []) =
     Inl IndexError"
proof -
  have b: "blank [CHR 0x0A]" "blank [CHR 0x20, CHR 0x09, CHR 0x0A]"
    by (simp_all add: blank_def isspace_def)
  have p: "\<exists>st. load_lines float_int (None, [], Surface_init) [''solid a''] = Inr st"
    "\<exists>st. load_lines float_int (None, [], Surface_init)
       [''facet normal 0 0 1'', ''vertex 0 0 0''] = Inr st"
    by (simp_all add: run_defs)
  from blank_line_raises [of "[CHR 0x0A]" float_int "(None, [], Surface_init)" Surface_init
      "[''solid a'']" "[''endsolid a'']"]
    blank_line_raises [of "[CHR 0x20, CHR 0x09, CHR 0x0A]" float_int "(None, [], Surface_init)"
      Surface_init "[''facet normal 0 0 1'', ''vertex 0 0 0'']" "[]"]
    b p
  show ?thesis by auto
qed

section \<open>The facet line and the name\<close>

lemma load_line_facet:
  "parse_line line = Inr (''facet'', val) \<Longrightarrow>
     load_line float (normal, verts, s) line =
       (case floats float (drop 1 val) of Inl e \<Rightarrow> Inl e | Inr n \<Rightarrow> Inr (Some n, verts, s))"
  by (simp add: load_line_def)

lemma load_line_endfacet:
  "parse_line line = Inr (''endfacet'', val) \<Longrightarrow>
     load_line float (normal, verts, s) line =
       (case add_facet s normal verts of Inl e \<Rightarrow> Inl e | Inr s' \<Rightarrow> Inr (None, [], s'))"
  by (simp add: load_line_def)

lemma has_key_iff: "has_key k l \<longleftrightarrow> (\<exists>val. parse_line l = Inr (k, val))"
  by (auto simp: has_key_def split: sum.splits)

lemma parse_line_args: "parse_line l = Inr (k, val) \<Longrightarrow> drop 1 (split l) = val"
  by (auto simp: parse_line_split split: list.splits)

lemma since_endfacet_snoc:
  "since_endfacet (fp @ [l]) = (if has_key ''endfacet'' l then [] else since_endfacet fp @ [l])"
  by (simp add: since_endfacet_def)

lemma load_line_pending:
  assumes "load_line float (normal, verts, s) line = Inr (normal', verts', s')"
  shows "(has_key ''endfacet'' line \<longrightarrow> normal' = None \<and> verts' = []) \<and>
     (has_key ''vertex'' line \<longrightarrow>
        map Inr verts' = map Inr verts @ [floats float (drop 1 (split line))]) \<and>
     (\<not> has_key ''endfacet'' line \<and> \<not> has_key ''vertex'' line \<longrightarrow> verts' = verts)"
  using assms
  by (cases rule: load_line_elim) (auto simp: has_key_iff dest: parse_line_args)

lemma load_lines_pending:
  assumes "load_lines float (None, [], s) fp = Inr (normal', verts', s')"
  shows "map Inr verts' =
     map (\<lambda>l. floats float (drop 1 (split l))) (filter (has_key ''vertex'') (since_endfacet fp))"
  using assms
proof (induction fp arbitrary: normal' verts' s' rule: rev_induct)
  case Nil
  then show ?case by (simp add: since_endfacet_def)
next
  case (snoc l fp)
  from snoc.prems obtain n1 v1 s1
    where 1: "load_lines float (None, [], s) fp = Inr (n1, v1, s1)"
      and 2: "load_line float (n1, v1, s1) l = Inr (normal', verts', s')"
    by (auto simp: load_lines_append split: sum.splits)
  from snoc.IH [OF 1] load_line_pending [OF 2] show ?case
    by (auto simp: since_endfacet_snoc has_key_def split: sum.splits)
qed

text \<open>
  Claim C5, amended. A \<^verbatim>\<open>facet\<close> line sets the pending normal to the numbers
  converted from all its arguments after the first one (the three numbers of a line
  \<^verbatim>\<open>facet normal nx ny nz\<close>; the first argument is skipped, whatever it is), and
  leaves the pending vertex list and the surface as they were. An iteration of the loop
  empties the pending vertex list on an \<^verbatim>\<open>endfacet\<close> line, appends to it on a
  \<^verbatim>\<open>vertex\<close> line and leaves it as it was on every other line; a load starts with
  the empty list, so that throughout a load the pending vertex list holds the
  \<^verbatim>\<open>vertex\<close> lines read since the last \<^verbatim>\<open>endfacet\<close> line.
\<close>

theorem facet_line_sets_normal_only:
  "(parse_line line = Inr (''facet'', val) \<longrightarrow>
      load_line float (normal, verts, s) line =
        (case floats float (drop 1 val) of Inl e \<Rightarrow> Inl e
         | Inr n \<Rightarrow> Inr (Some n, verts, s))) \<and>
   (split line = [''facet'', kw, a, b, c] \<and>
      float a = Some ra \<and> float b = Some rb \<and> float c = Some rc \<longrightarrow>
      load_line float (normal, verts, s) line = Inr (Some [ra, rb, rc], verts, s)) \<and>
   (load_line float (normal, verts, s) line = Inr (normal', verts', s') \<longrightarrow>
      (has_key ''endfacet'' line \<longrightarrow> normal' = None \<and> verts' = []) \<and>
      (has_key ''vertex'' line \<longrightarrow>
         map Inr verts' = map Inr verts @ [floats float (drop 1 (split line))]) \<and>
      (\<not> has_key ''endfacet'' line \<and> \<not> has_key ''vertex'' line \<longrightarrow> verts' = verts)) \<and>
   (load_lines float (None, [], s) fp = Inr (pn, pv, s'') \<longrightarrow>
      map Inr pv =
        map (\<lambda>l. floats float (drop 1 (split l)))
          (filter (has_key ''vertex'') (since_endfacet fp))) \<and>
   load float s fp =
     (case load_lines float (None, [], s) fp of Inl e \<Rightarrow> Inl e | Inr (n, vs, t) \<Rightarrow> Inr t)"
proof (intro conjI impI)
  assume "parse_line line = Inr (''facet'', val)"
  then show "load_line float (normal, verts, s) line =
        (case floats float (drop 1 val) of Inl e \<Rightarrow> Inl e | Inr n \<Rightarrow> Inr (Some n, verts, s))"
    by (rule load_line_facet)
next
  assume h: "split line = [''facet'', kw, a, b, c] \<and>
      float a = Some ra \<and> float b = Some rb \<and> float c = Some rc"
  then have "parse_line line = Inr (''facet'', [kw, a, b, c])"
    by (simp add: parse_line_split)
  then show "load_line float (normal, verts, s) line = Inr (Some [ra, rb, rc], verts, s)"
    using h by (simp add: load_line_facet)
next
  assume l: "load_line float (normal, verts, s) line = Inr (normal', verts', s')"
  note p = load_line_pending [OF l]
  {
    assume "has_key ''endfacet'' line"
    with p show "normal' = None" "verts' = []" by simp_all
  next
    assume "has_key ''vertex'' line"
    with p show "map Inr verts' = map Inr verts @ [floats float (drop 1 (split line))]"
      by simp
  next
    assume "\<not> has_key ''endfacet'' line \<and> \<not> has_key ''vertex'' line"
    with p show "verts' = verts" by simp
  }
next
  assume "load_lines float (None, [], s) fp = Inr (pn, pv, s'')"
  then show "map Inr pv =
        map (\<lambda>l. floats float (drop 1 (split l)))
          (filter (has_key ''vertex'') (since_endfacet fp))"
    by (rule load_lines_pending)
next
  show "load float s fp =
     (case load_lines float (None, [], s) fp of Inl e \<Rightarrow> Inl e | Inr (n, vs, t) \<Rightarrow> Inr t)"
    by (simp add: load_def)
qed

theorem facet_line_sets_normal_only_example:
  "load_line float_int (Some [1, 0, 0], [[1, 2, 3]], Surface_init) ''facet normal 0 0 1'' =
     Inr (Some [0, 0, 1], [[1, 2, 3]], Surface_init) \<and>
   (\<exists>s'. load_line float_int (Some [0, 0, 1], [[0, 0, 0], [1, 0, 0], [0, 1, 0]], Surface_init)
      ''endfacet'' = Inr (None, [], s')) \<and>
   load_line float_int (None, [[7, 8, 9]], Surface_init) ''solid Moon'' =
     Inr (None, [[7, 8, 9]], Surface_init\<lparr>name := Some [''Moon'']\<rparr>) \<and>
   load_line float_int (None, [[7, 8, 9]], Surface_init) ''vertex 1 2 3'' =
     Inr (None, [[7, 8, 9], [1, 2, 3]], Surface_init) \<and>
   (\<exists>n s'. load_lines float_int (None, [], Surface_init)
      [''vertex 4 4 4'', ''vertex 5 5 5'', ''vertex 6 6 6'', ''endfacet'', ''vertex 7 8 9'',
       ''facet normal 0 0 1'', ''vertex 1 2 3''] = Inr (n, [[7, 8, 9], [1, 2, 3]], s'))"
proof -
  have sp: "split ''facet normal 0 0 1'' = [''facet'', ''normal'', ''0'', ''0'', ''1'']"
    by (simp add: split_def isspace_def)
  have fl: "float_int ''0'' = Some 0" "float_int ''1'' = Some 1"
    by (simp_all add: float_int_def)
  from facet_line_sets_normal_only [where line = "''facet normal 0 0 1''" and float = float_int
      and kw = "''normal''" and a = "''0''" and b = "''0''" and c = "''1''"
      and ra = 0 and rb = 0 and rc = 1 and normal = "Some [1, 0, 0]" and verts = "[[1, 2, 3]]"
      and s = Surface_init] sp fl
  have 1: "load_line float_int (Some [1, 0, 0], [[1, 2, 3]], Surface_init) ''facet normal 0 0 1'' =
     Inr (Some [0, 0, 1], [[1, 2, 3]], Surface_init)"
    by simp
  have ke: "has_key ''endfacet'' ''endfacet''"
    by (simp add: parse_defs)
  obtain n' vs' s' where e: "load_line float_int
      (Some [0, 0, 1], [[0, 0, 0], [1, 0, 0], [0, 1, 0]], Surface_init) ''endfacet'' = Inr (n', vs', s')"
    by (simp add: run_defs)
  from facet_line_sets_normal_only [where line = "''endfacet''" and float = float_int
      and normal = "Some [0, 0, 1]" and verts = "[[0, 0, 0], [1, 0, 0], [0, 1, 0]]"
      and s = Surface_init and normal' = n' and verts' = vs' and s' = s'] ke e
  have 2: "n' = None \<and> vs' = []" by simp
  have ks: "\<not> has_key ''endfacet'' ''solid Moon''" "\<not> has_key ''vertex'' ''solid Moon''"
    by (simp_all add: parse_defs)
  obtain n3 vs3 where so: "load_line float_int (None, [[7, 8, 9]], Surface_init) ''solid Moon'' =
      Inr (n3, vs3, Surface_init\<lparr>name := Some [''Moon'']\<rparr>)" and n3: "n3 = None"
    by (simp add: run_defs)
  from facet_line_sets_normal_only [where line = "''solid Moon''" and float = float_int
      and normal = None and verts = "[[7, 8, 9]]" and s = Surface_init and normal' = n3
      and verts' = vs3 and s' = "Surface_init\<lparr>name := Some [''Moon'']\<rparr>"] ks so
  have 3: "vs3 = [[7, 8, 9]]" by simp
  have kv: "has_key ''vertex'' ''vertex 1 2 3''"
    and fv: "floats float_int (drop 1 (split ''vertex 1 2 3'')) = Inr [1, 2, 3]"
    by (simp_all add: parse_defs)
  obtain vs4 where ve: "load_line float_int (None, [[7, 8, 9]], Surface_init) ''vertex 1 2 3'' =
      Inr (None, vs4, Surface_init)"
    by (simp add: run_defs)
  from facet_line_sets_normal_only [where line = "''vertex 1 2 3''" and float = float_int
      and normal = None and verts = "[[7, 8, 9]]" and s = Surface_init and normal' = None
      and verts' = vs4 and s' = Surface_init] kv fv ve
  have "map Inr vs4 = [Inr [7, 8, 9], Inr [1, 2, 3 :: real] :: error + real list]" by simp
  then have 4: "vs4 = [[7, 8, 9], [1, 2, 3]]"
    by (auto simp: map_eq_Cons_conv)
  let ?fp = "[''vertex 4 4 4'', ''vertex 5 5 5'', ''vertex 6 6 6'', ''endfacet'', ''vertex 7 8 9'',
       ''facet normal 0 0 1'', ''vertex 1 2 3'']"
  obtain n5 vs5 s5 where ll: "load_lines float_int (None, [], Surface_init) ?fp = Inr (n5, vs5, s5)"
    by (simp add: run_defs)
  have se: "map (\<lambda>l. floats float_int (drop 1 (split l)))
      (filter (has_key ''vertex'') (since_endfacet ?fp)) = [Inr [7, 8, 9], Inr [1, 2, 3]]"
    by (simp add: since_endfacet_def parse_defs)
  from facet_line_sets_normal_only [where float = float_int and s = Surface_init and fp = ?fp
      and pn = n5 and pv = vs5 and s'' = s5] ll se
  have "map Inr vs5 = [Inr [7, 8, 9], Inr [1, 2, 3 :: real] :: error + real list]" by simp
  then have 5: "vs5 = [[7, 8, 9], [1, 2, 3]]"
    by (auto simp: map_eq_Cons_conv)
  from 1 2 e 3 so n3 4 ve 5 ll show ?thesis by blast
qed

text \<open>The pending vertex list of an unterminated facet is still there after the next
  \<^verbatim>\<open>facet\<close> line; and on the line \<^verbatim>\<open>facet 1 2 3\<close> the first argument is skipped
  though it is not the word \<^verbatim>\<open>normal\<close>, and two numbers make the normal.\<close>

theorem facet_line_keeps_pending_vertices:
  "load_lines float_int (None, [], Surface_init)
     [''facet normal 0 0 1'', ''vertex 0 0 0'', ''vertex 1 0 0'', ''vertex 0 1 0'',
      ''facet normal 1 0 0''] =
     Inr (Some [1, 0, 0], [[0, 0, 0], [1, 0, 0], [0, 1, 0]], Surface_init) \<and>
   load_line float_int (None, [], Surface_init) ''facet 1 2 3'' =
     Inr (Some [2, 3], [], Surface_init)"
  by (simp add: run_defs)

lemma add_facet_name: "add_facet s n verts = Inr s' \<Longrightarrow> name s' = name s"
  by (auto elim!: add_facet_Inr)

lemma solid_args_Cons:
  "solid_args (l # fp) = (if has_key ''solid'' l then drop 1 (split l) # solid_args fp else solid_args fp)"
  by (simp add: solid_args_def)

lemma load_line_name:
  assumes "load_line float (normal, verts, s) line = Inr (normal', verts', s')"
  shows "name s' = (if has_key ''solid'' line then Some (drop 1 (split line)) else name s)"
  using assms
  by (cases rule: load_line_elim)
    (auto simp: has_key_iff set_name_def add_facet_name dest: parse_line_args)

lemma load_lines_name:
  assumes "load_lines float (normal, verts, s) fp = Inr (normal', verts', s')"
  shows "name s' = (if solid_args fp = [] then name s else Some (last (solid_args fp)))"
  using assms
proof (induction fp arbitrary: normal verts s)
  case Nil
  then show ?case by (simp add: solid_args_def)
next
  case (Cons line rest)
  from Cons.prems obtain n1 v1 s1
    where 1: "load_line float (normal, verts, s) line = Inr (n1, v1, s1)"
      and 2: "load_lines float (n1, v1, s1) rest = Inr (normal', verts', s')"
    by (auto split: sum.splits)
  from Cons.IH [OF 2] load_line_name [OF 1] show ?case
    by (simp add: solid_args_Cons)
qed

text \<open>
  Claim C6, amended. Every \<^verbatim>\<open>solid\<close> line sets the name, so the last one wins:
  after a load the name is the list of the words that follow \<^verbatim>\<open>solid\<close> on the last
  such line of the input, and the name the surface had before (none for a new surface)
  when the input has no such line.
\<close>

theorem name_from_last_solid_line:
  "load float s fp = Inr s' \<longrightarrow>
     name s' = (if solid_args fp = [] then name s else Some (last (solid_args fp))) \<and>
     name Surface_init = None"
proof
  assume "load float s fp = Inr s'"
  then obtain normal verts where "load_lines float (None, [], s) fp = Inr (normal, verts, s')"
    by (auto dest: load_Inr)
  then show "name s' = (if solid_args fp = [] then name s else Some (last (solid_args fp))) \<and>
     name Surface_init = None"
    by (simp add: load_lines_name Surface_init_def)
qed

theorem name_from_last_solid_line_example:
  "\<exists>s'. load float_int Surface_init [''solid Moon'', ''endsolid Moon'', ''solid Sun rise''] = Inr s' \<and>
     solid_args [''solid Moon'', ''endsolid Moon'', ''solid Sun rise''] = [[''Moon''], [''Sun'', ''rise'']] \<and>
     name s' = Some [''Sun'', ''rise'']"
proof -
  let ?fp = "[''solid Moon'', ''endsolid Moon'', ''solid Sun rise'']"
  obtain s' where s': "load float_int Surface_init ?fp = Inr s'"
    by (simp add: run_defs)
  have a: "solid_args ?fp = [[''Moon''], [''Sun'', ''rise'']]"
    by (simp add: solid_args_def has_key_def parse_line_def split_def isspace_def index_def)
  from name_from_last_solid_line [of float_int Surface_init ?fp s'] s' a
  have "name s' = Some [''Sun'', ''rise'']" by simp
  with s' a show ?thesis by blast
qed

text \<open>A second \<^verbatim>\<open>solid\<close> line replaces the name the first one set.\<close>

theorem later_solid_line_overwrites_name:
  "load float_int Surface_init [''solid A'', ''solid B''] = Inr (Surface_init\<lparr>name := Some [''B'']\<rparr>) \<and>
   load float_int Surface_init [''solid A''] = Inr (Surface_init\<lparr>name := Some [''A'']\<rparr>)"
  by (simp add: run_defs)

section \<open>The facet sequence and the vertex index\<close>

lemma lookup_default_append_facet:
  "lookup_default (append_facet f m w) v = lookup_default m v @ (if w = v then [f] else [])"
  by (simp add: append_facet_def lookup_default_def)

lemma lookup_default_foldl:
  "lookup_default (foldl (append_facet f) m verts) v =
     lookup_default m v @ replicate (count_list verts v) f"
  by (induction verts arbitrary: m) (simp_all add: lookup_default_append_facet)

lemma find_facets_lookup: "fst (find_facets s v) = lookup_default (vertices s) v"
  by (simp add: find_facets_def lookup_default_def split: option.splits)

text \<open>What a run of the loop adds to the surface: one facet for each block of the
  lines, in their order, with its entries in the index and its area in the total.\<close>

lemma load_lines_blocks:
  assumes "load_lines float (normal, verts, s) fp = Inr (normal', verts', s')"
  shows "\<exists>fs. facets s' = facets s @ fs \<and>
     map (\<lambda>(n, vs). Facet_init n vs) (facet_blocks float (normal, verts) fp) = map Inr fs \<and>
     (\<forall>v. lookup_default (vertices s') v = lookup_default (vertices s) v @
        concat (map (\<lambda>(f, b). replicate (count_list (snd b) v) f)
          (zip fs (facet_blocks float (normal, verts) fp)))) \<and>
     Surface.area s' = Surface.area s + sum_list (map Facet.area fs)"
  using assms
proof (induction fp arbitrary: normal verts s)
  case Nil
  then show ?case by simp
next
  case (Cons line rest)
  from Cons.prems obtain st1
    where 1: "load_line float (normal, verts, s) line = Inr st1"
      and 2: "load_lines float st1 rest = Inr (normal', verts', s')"
    by (auto split: sum.splits)
  from 1 show ?case
  proof (cases rule: load_line_elim)
    case (solid val)
    from Cons.IH [OF 2 [unfolded solid(2)]] solid(1) show ?thesis
      by (simp add: set_name_def)
  next
    case (facet val n)
    from Cons.IH [OF 2 [unfolded facet(3)]] facet(1,2) show ?thesis
      by simp
  next
    case (vertex val v)
    from Cons.IH [OF 2 [unfolded vertex(3)]] vertex(1,2) show ?thesis
      by simp
  next
    case (endfacet val s1)
    from endfacet(2) obtain f where f: "Facet_init normal verts = Inr f"
      and s1: "facets s1 = facets s @ [f]"
        "vertices s1 = foldl (append_facet f) (vertices s) verts"
        "Surface.area s1 = Surface.area s + Facet.area f"
      by (auto elim!: add_facet_Inr)
    from Cons.IH [OF 2 [unfolded endfacet(3)]] obtain fs
      where fs: "facets s' = facets s1 @ fs"
        "map (\<lambda>(n, vs). Facet_init n vs) (facet_blocks float (None, []) rest) = map Inr fs"
        "\<forall>v. lookup_default (vertices s') v = lookup_default (vertices s1) v @
          concat (map (\<lambda>(f, b). replicate (count_list (snd b) v) f)
            (zip fs (facet_blocks float (None, []) rest)))"
        "Surface.area s' = Surface.area s1 + sum_list (map Facet.area fs)"
      by blast
    have b: "facet_blocks float (normal, verts) (line # rest) =
        (normal, verts) # facet_blocks float (None, []) rest"
      using endfacet(1) by simp
    show ?thesis
      by (rule exI [of _ "f # fs"]) (simp add: b f s1 fs lookup_default_foldl del: facet_blocks.simps)
  next
    case (other key val)
    from Cons.IH [OF 2 [unfolded other(6)]] other(1-5) show ?thesis
      by simp
  qed
qed

lemma load_blocks:
  assumes "load float Surface_init fp = Inr s"
  shows "map (\<lambda>(n, vs). Facet_init n vs) (facet_blocks float (None, []) fp) = map Inr (facets s)"
    and "lookup_default (vertices s) v =
        concat (map (\<lambda>(f, b). replicate (count_list (snd b) v) f)
          (zip (facets s) (facet_blocks float (None, []) fp)))"
    and "Surface.area s = sum_list (map Facet.area (facets s))"
proof -
  from assms obtain normal verts where
    "load_lines float (None, [], Surface_init) fp = Inr (normal, verts, s)"
    by (auto dest: load_Inr)
  from load_lines_blocks [OF this] obtain fs
    where fs: "facets s = facets Surface_init @ fs"
        "map (\<lambda>(n, vs). Facet_init n vs) (facet_blocks float (None, []) fp) = map Inr fs"
        "\<forall>v. lookup_default (vertices s) v = lookup_default (vertices Surface_init) v @
          concat (map (\<lambda>(f, b). replicate (count_list (snd b) v) f)
            (zip fs (facet_blocks float (None, []) fp)))"
        "Surface.area s = Surface.area Surface_init + sum_list (map Facet.area fs)"
    by blast
  from fs(1) have eq: "fs = facets s" by (simp add: Surface_init_def)
  from fs(2) show "map (\<lambda>(n, vs). Facet_init n vs) (facet_blocks float (None, []) fp) = map Inr (facets s)"
    by (simp add: eq)
  from fs(3) show "lookup_default (vertices s) v =
        concat (map (\<lambda>(f, b). replicate (count_list (snd b) v) f)
          (zip (facets s) (facet_blocks float (None, []) fp)))"
    by (simp add: eq Surface_init_def lookup_default_def)
  from fs(4) show "Surface.area s = sum_list (map Facet.area (facets s))"
    by (simp add: eq Surface_init_def)
qed

lemma load_lines_count:
  assumes "load_lines float (normal, verts, s) fp = Inr st'"
  shows "length (facet_blocks float (normal, verts) fp) = length (filter (has_key ''endfacet'') fp)"
  using assms
proof (induction fp arbitrary: normal verts s)
  case Nil
  then show ?case by simp
next
  case (Cons line rest)
  from Cons.prems obtain st1
    where 1: "load_line float (normal, verts, s) line = Inr st1"
      and 2: "load_lines float st1 rest = Inr st'"
    by (auto split: sum.splits)
  from 1 show ?case
  proof (cases rule: load_line_elim)
    case (solid val)
    from Cons.IH [OF 2 [unfolded solid(2)]] solid(1) show ?thesis
      by (simp add: has_key_def)
  next
    case (facet val n)
    from Cons.IH [OF 2 [unfolded facet(3)]] facet(1,2) show ?thesis
      by (simp add: has_key_def)
  next
    case (vertex val v)
    from Cons.IH [OF 2 [unfolded vertex(3)]] vertex(1,2) show ?thesis
      by (simp add: has_key_def)
  next
    case (endfacet val s1)
    from Cons.IH [OF 2 [unfolded endfacet(3)]] endfacet(1) show ?thesis
      by (simp add: has_key_def)
  next
    case (other key val)
    from Cons.IH [OF 2 [unfolded other(6)]] other(1-5) show ?thesis
      by (simp add: has_key_def)
  qed
qed


text \<open>
  Claim C8. A load into a new surface that returns has built one facet for each facet
  block of the input, that is for each \<^verbatim>\<open>endfacet\<close> line, from the normal and the
  vertices of the block and in the order of the input; the running area is the sum of
  the areas stored in these facets.
\<close>

theorem load_facets_in_input_order:
  "load float Surface_init fp = Inr s \<longrightarrow>
     map (\<lambda>(n, vs). Facet_init n vs) (facet_blocks float (None, []) fp) = map Inr (get_facets s) \<and>
     length (get_facets s) = length (filter (has_key ''endfacet'') fp) \<and>
     Surface.area s = sum_list (map Facet.area (get_facets s))"
proof
  assume l: "load float Surface_init fp = Inr s"
  then obtain normal verts where
    "load_lines float (None, [], Surface_init) fp = Inr (normal, verts, s)"
    by (auto dest: load_Inr)
  then have n: "length (facet_blocks float (None, []) fp) = length (filter (has_key ''endfacet'') fp)"
    by (rule load_lines_count)
  have m: "map (\<lambda>(n, vs). Facet_init n vs) (facet_blocks float (None, []) fp) = map Inr (facets s)"
    using l by (rule load_blocks)
  from m have "length (facet_blocks float (None, []) fp) = length (facets s)"
    by (metis length_map)
  with n m load_blocks(3) [OF l]
  show "map (\<lambda>(n, vs). Facet_init n vs) (facet_blocks float (None, []) fp) = map Inr (get_facets s) \<and>
     length (get_facets s) = length (filter (has_key ''endfacet'') fp) \<and>
     Surface.area s = sum_list (map Facet.area (get_facets s))"
    by (simp add: get_facets_def)
qed

lemma find_area_3_4_5:
  "find_area \<lparr>x = 0, y = 0, z = 0\<rparr> \<lparr>x = 3, y = 0, z = 0\<rparr> \<lparr>x = 0, y = 4, z = 0\<rparr> = 6"
  "find_area \<lparr>x = 3, y = 0, z = 0\<rparr> \<lparr>x = 3, y = 4, z = 0\<rparr> \<lparr>x = 0, y = 4, z = 0\<rparr> = 6"
proof -
  have r: "sqrt 9 = 3" "sqrt 16 = 4" "sqrt 25 = 5" "sqrt 36 = 6"
    using real_sqrt_abs [of 3] real_sqrt_abs [of 4] real_sqrt_abs [of 5] real_sqrt_abs [of 6]
    by simp_all
  show "find_area \<lparr>x = 0, y = 0, z = 0\<rparr> \<lparr>x = 3, y = 0, z = 0\<rparr> \<lparr>x = 0, y = 4, z = 0\<rparr> = 6"
    "find_area \<lparr>x = 3, y = 0, z = 0\<rparr> \<lparr>x = 3, y = 4, z = 0\<rparr> \<lparr>x = 0, y = 4, z = 0\<rparr> = 6"
    by (simp_all add: find_area_def distance_def r)
qed

theorem load_facets_in_input_order_example:
  "\<exists>s f1 f2. load float_int Surface_init
       [''solid two'',
        ''facet normal 0 0 1'', ''outer loop'', ''vertex 0 0 0'', ''vertex 3 0 0'', ''vertex 0 4 0'',
        ''endloop'', ''endfacet'',
        ''facet normal 0 0 -1'', ''outer loop'', ''vertex 3 0 0'', ''vertex 3 4 0'', ''vertex 0 4 0'',
        ''endloop'', ''endfacet'',
        ''endsolid two''] = Inr s \<and>
     get_facets s = [f1, f2] \<and>
     Facet_init (Some [0, 0, 1]) [[0, 0, 0], [3, 0, 0], [0, 4, 0]] = Inr f1 \<and>
     Facet_init (Some [0, 0, - 1]) [[3, 0, 0], [3, 4, 0], [0, 4, 0]] = Inr f2 \<and>
     Facet.area f1 = 6 \<and> Facet.area f2 = 6 \<and> Surface.area s = 12"
proof -
  let ?fp = "[''solid two'',
        ''facet normal 0 0 1'', ''outer loop'', ''vertex 0 0 0'', ''vertex 3 0 0'', ''vertex 0 4 0'',
        ''endloop'', ''endfacet'',
        ''facet normal 0 0 -1'', ''outer loop'', ''vertex 3 0 0'', ''vertex 3 4 0'', ''vertex 0 4 0'',
        ''endloop'', ''endfacet'',
        ''endsolid two'']"
  obtain s where s: "load float_int Surface_init ?fp = Inr s"
    by (simp add: run_defs)
  have b: "facet_blocks float_int (None, []) ?fp =
      [(Some [0, 0, 1], [[0, 0, 0], [3, 0, 0], [0, 4, 0]]),
       (Some [0, 0, - 1], [[3, 0, 0], [3, 4, 0], [0, 4, 0]])]"
    by (simp add: parse_defs)
  have e: "length (filter (has_key ''endfacet'') ?fp) = 2"
    by (simp add: parse_defs)
  from load_facets_in_input_order [of float_int ?fp s] s b e
  have m: "[Facet_init (Some [0, 0, 1]) [[0, 0, 0], [3, 0, 0], [0, 4, 0]],
            Facet_init (Some [0, 0, - 1]) [[3, 0, 0], [3, 4, 0], [0, 4, 0]]] = map Inr (get_facets s)"
    and a: "Surface.area s = sum_list (map Facet.area (get_facets s))"
    by simp_all
  from m obtain f1 f2 where f: "get_facets s = [f1, f2]"
    "Facet_init (Some [0, 0, 1]) [[0, 0, 0], [3, 0, 0], [0, 4, 0]] = Inr f1"
    "Facet_init (Some [0, 0, - 1]) [[3, 0, 0], [3, 4, 0], [0, 4, 0]] = Inr f2"
    by (cases "get_facets s") (auto simp: Cons_eq_map_conv)
  from f(2,3) have ar: "Facet.area f1 = 6" "Facet.area f2 = 6"
    by (auto simp: Facet_init_def vertex_at_def index_def find_area_3_4_5)
  with a f s show ?thesis by simp
qed

lemma concat_replicate_absent:
  assumes "\<forall>b\<in>set bs. v \<notin> set (snd b)"
  shows "concat (map (\<lambda>(f, b). replicate (count_list (snd b) v) f) (zip fs bs)) = []"
  using assms by (auto dest!: set_zip_rightD)

lemma concat_replicate_once:
  assumes "\<forall>b\<in>set bs. count_list (snd b) v \<le> 1"
  shows "concat (map (\<lambda>(f, b). replicate (count_list (snd b) v) f) (zip fs bs)) =
     map fst (filter (\<lambda>(f, b). v \<in> set (snd b)) (zip fs bs))"
  using assms
proof (induction fs bs rule: list_induct2')
  case (4 f fs b bs)
  then have "count_list (snd b) v \<le> 1" by simp
  then have "count_list (snd b) v = (if v \<in> set (snd b) then 1 else 0)"
    using count_list_0_iff [of "snd b" v] by auto
  with 4 show ?case by simp
qed simp_all

lemma Point_new_tuple: "Point_new t = Inr p \<Longrightarrow> t = Point_tuple p"
  by (cases t rule: Point_new.cases) (auto simp: Point_tuple_def)

lemma Facet_init_three:
  assumes "Facet_init n vs = Inr f" and "length vs = 3"
  shows "vs = [Point_tuple (A f), Point_tuple (B f), Point_tuple (C f)]"
proof -
  from assms(2) obtain a b c where vs: "vs = [a, b, c]"
    by (auto simp: length_Suc_conv numeral_3_eq_3)
  from assms(1) show ?thesis unfolding vs
    by (auto elim!: Facet_init_Inr simp: vertex_at_def index_def dest!: Point_new_tuple)
qed

lemma concat_replicate_three:
  assumes "map (\<lambda>(n, vs). Facet_init n vs) bs = map Inr fs"
    and "\<forall>b\<in>set bs. length (snd b) = 3"
  shows "concat (map (\<lambda>(f, b). replicate (count_list (snd b) v) f) (zip fs bs)) =
     concat (map (\<lambda>f. replicate
       (count_list [Point_tuple (A f), Point_tuple (B f), Point_tuple (C f)] v) f) fs)"
  using assms
proof (induction fs bs rule: list_induct2')
  case (4 f fs b bs)
  from 4(2) have "Facet_init (fst b) (snd b) = Inr f" by (simp add: case_prod_unfold)
  moreover from 4(3) have "length (snd b) = 3" by simp
  ultimately have "snd b = [Point_tuple (A f), Point_tuple (B f), Point_tuple (C f)]"
    by (rule Facet_init_three)
  with 4 show ?case by simp
qed simp_all

text \<open>
  Claim C7. After a load into a new surface, \<^verbatim>\<open>find_facets\<close> of a vertex returns
  the facets in the order they were parsed, each once for every vertex position of its
  block that holds the vertex. A vertex that no block holds yields the empty list, with
  no error. When no block holds the vertex twice the result is the list of the facets
  whose block holds it, each once. When every block has three vertex lines the
  positions are the vertices A, B, C of the facet itself.
\<close>

theorem find_facets_in_parse_order:
  "load float Surface_init fp = Inr s \<longrightarrow>
     fst (find_facets s v) =
       concat (map (\<lambda>(f, b). replicate (count_list (snd b) v) f)
         (zip (get_facets s) (facet_blocks float (None, []) fp))) \<and>
     length (get_facets s) = length (facet_blocks float (None, []) fp) \<and>
     ((\<forall>b\<in>set (facet_blocks float (None, []) fp). v \<notin> set (snd b)) \<longrightarrow>
        fst (find_facets s v) = []) \<and>
     ((\<forall>b\<in>set (facet_blocks float (None, []) fp). count_list (snd b) v \<le> 1) \<longrightarrow>
        fst (find_facets s v) =
          map fst (filter (\<lambda>(f, b). v \<in> set (snd b))
            (zip (get_facets s) (facet_blocks float (None, []) fp)))) \<and>
     ((\<forall>b\<in>set (facet_blocks float (None, []) fp). length (snd b) = 3) \<longrightarrow>
        fst (find_facets s v) =
          concat (map (\<lambda>f. replicate
            (count_list [Point_tuple (A f), Point_tuple (B f), Point_tuple (C f)] v) f)
            (get_facets s)))"
proof
  assume l: "load float Surface_init fp = Inr s"
  let ?bs = "facet_blocks float (None, []) fp"
  have m: "map (\<lambda>(n, vs). Facet_init n vs) ?bs = map Inr (facets s)"
    using l by (rule load_blocks)
  then have n: "length (facets s) = length ?bs" by (metis length_map)
  have r: "fst (find_facets s v) =
      concat (map (\<lambda>(f, b). replicate (count_list (snd b) v) f) (zip (facets s) ?bs))"
    using load_blocks(2) [OF l] by (simp add: find_facets_lookup)
  show "fst (find_facets s v) =
       concat (map (\<lambda>(f, b). replicate (count_list (snd b) v) f) (zip (get_facets s) ?bs)) \<and>
     length (get_facets s) = length ?bs \<and>
     ((\<forall>b\<in>set ?bs. v \<notin> set (snd b)) \<longrightarrow> fst (find_facets s v) = []) \<and>
     ((\<forall>b\<in>set ?bs. count_list (snd b) v \<le> 1) \<longrightarrow>
        fst (find_facets s v) =
          map fst (filter (\<lambda>(f, b). v \<in> set (snd b)) (zip (get_facets s) ?bs))) \<and>
     ((\<forall>b\<in>set ?bs. length (snd b) = 3) \<longrightarrow>
        fst (find_facets s v) =
          concat (map (\<lambda>f. replicate
            (count_list [Point_tuple (A f), Point_tuple (B f), Point_tuple (C f)] v) f)
            (get_facets s)))"
    unfolding get_facets_def r
    using n concat_replicate_absent [of ?bs v "facets s"] concat_replicate_once [of ?bs v "facets s"]
      concat_replicate_three [OF m, of v]
    by blast
qed


theorem find_facets_in_parse_order_example:
  "\<exists>s f1 f2 f3. load float_int Surface_init
       [''solid three'',
        ''facet normal 0 0 1'', ''vertex 0 0 0'', ''vertex 1 0 0'', ''vertex 0 1 0'', ''endfacet'',
        ''facet normal 0 0 1'', ''vertex 2 2 0'', ''vertex 3 2 0'', ''vertex 2 3 0'', ''endfacet'',
        ''facet normal 0 0 1'', ''vertex 1 0 0'', ''vertex 1 1 0'', ''vertex 0 1 0'', ''endfacet'',
        ''endsolid three''] = Inr s \<and>
     get_facets s = [f1, f2, f3] \<and>
     fst (find_facets s [1, 0, 0]) = [f1, f3] \<and>
     fst (find_facets s [2, 3, 0]) = [f2] \<and>
     fst (find_facets s [5, 5, 5]) = []"
proof -
  let ?fp = "[''solid three'',
        ''facet normal 0 0 1'', ''vertex 0 0 0'', ''vertex 1 0 0'', ''vertex 0 1 0'', ''endfacet'',
        ''facet normal 0 0 1'', ''vertex 2 2 0'', ''vertex 3 2 0'', ''vertex 2 3 0'', ''endfacet'',
        ''facet normal 0 0 1'', ''vertex 1 0 0'', ''vertex 1 1 0'', ''vertex 0 1 0'', ''endfacet'',
        ''endsolid three'']"
  obtain s where s: "load float_int Surface_init ?fp = Inr s"
    by (simp add: run_defs)
  have b: "facet_blocks float_int (None, []) ?fp =
      [(Some [0, 0, 1], [[0, 0, 0], [1, 0, 0], [0, 1, 0]]),
       (Some [0, 0, 1], [[2, 2, 0], [3, 2, 0], [2, 3, 0]]),
       (Some [0, 0, 1], [[1, 0, 0], [1, 1, 0], [0, 1, 0]])]"
    by (simp add: parse_defs)
  from find_facets_in_parse_order [of float_int ?fp s] s b
  have "length (get_facets s) = 3" by simp
  then obtain f1 f2 f3 where f: "get_facets s = [f1, f2, f3]"
    by (auto simp: length_Suc_conv numeral_3_eq_3)
  from find_facets_in_parse_order [of float_int ?fp s "[1, 0, 0]"] s b f
  have 1: "fst (find_facets s [1, 0, 0]) = [f1, f3]" by simp
  from find_facets_in_parse_order [of float_int ?fp s "[2, 3, 0]"] s b f
  have 2: "fst (find_facets s [2, 3, 0]) = [f2]" by simp
  from find_facets_in_parse_order [of float_int ?fp s "[5, 5, 5]"] s b f
  have 3: "fst (find_facets s [5, 5, 5]) = []" by simp
  from s f 1 2 3 show ?thesis by blast
qed

end
